theory Spec2Isabelle
  imports Complex_Main "HOL-Library.AList" "HOL-Library.Sublist"
begin

section \<open>Python strings and integers\<close>

text \<open>
  Strings are lists of ASCII characters. \<open>is_space\<close> is the set of ASCII characters that
  Python's \<^verbatim>\<open>str.strip()\<close> treats as white space (tab, line feed, vertical tab, form
  feed, carriage return, the four separators 0x1C-0x1F and the space). \<^verbatim>\<open>int()\<close> is
  stricter on an ASCII string: it skips only the six characters of C's \<^verbatim>\<open>isspace\<close>
  (\<open>is_int_space\<close>), so a separator 0x1C-0x1F beside the digits is a \<^verbatim>\<open>ValueError\<close>.
  Characters beyond ASCII are outside the model.
\<close>

definition is_space :: "char \<Rightarrow> bool" where
  "is_space c = (c \<in> set [CHR 0x09, CHR 0x0A, CHR 0x0B, CHR 0x0C, CHR 0x0D,
                           CHR 0x1C, CHR 0x1D, CHR 0x1E, CHR 0x1F, CHR 0x20])"

definition strip :: "string \<Rightarrow> string" where
  "strip s = rev (dropWhile is_space (rev (dropWhile is_space s)))"

definition is_int_space :: "char \<Rightarrow> bool" where
  "is_int_space c = (c \<in> set [CHR 0x09, CHR 0x0A, CHR 0x0B, CHR 0x0C, CHR 0x0D, CHR 0x20])"

definition int_strip :: "string \<Rightarrow> string" where
  "int_strip s = rev (dropWhile is_int_space (rev (dropWhile is_int_space s)))"

definition is_digit :: "char \<Rightarrow> bool" where
  "is_digit c = (c \<in> set ''0123456789'')"

definition digit_val :: "char \<Rightarrow> nat" where
  "digit_val c = of_char c - 48"

text \<open>\<^verbatim>\<open>s.split(sep)\<close> with a one-character separator: never an empty list.\<close>

fun split_on :: "char \<Rightarrow> string \<Rightarrow> string list" where
  "split_on sep [] = [[]]"
| "split_on sep (c # cs) =
     (if c = sep then [] # split_on sep cs
      else (case split_on sep cs of
              [] \<Rightarrow> [[c]]
            | p # ps \<Rightarrow> (c # p) # ps))"

text \<open>
  The digits of \<^verbatim>\<open>int(s)\<close> in base 10, after the first digit: more digits, each
  optionally preceded by one underscore.
\<close>

fun digits_value :: "nat \<Rightarrow> string \<Rightarrow> nat option" where
  "digits_value acc [] = Some acc"
| "digits_value acc (c # cs) =
     (if is_digit c then digits_value (10 * acc + digit_val c) cs
      else if c = CHR ''_'' then
        (case cs of
           [] \<Rightarrow> None
         | d # ds \<Rightarrow> if is_digit d then digits_value (10 * acc + digit_val d) ds else None)
      else None)"

text \<open>
  \<^verbatim>\<open>int(s)\<close>: surrounding white space is dropped, one sign is allowed, at least one
  digit is required. \<open>None\<close> stands for the \<^verbatim>\<open>ValueError\<close>. A literal of more
  than \<open>max_str_digits\<close> digits (leading zeros counted, underscores not) is a
  \<^verbatim>\<open>ValueError\<close> as well; 4300 is the interpreter's default for that limit.
\<close>

definition max_str_digits :: nat where
  "max_str_digits = 4300"

definition unsigned_int :: "string \<Rightarrow> nat option" where
  "unsigned_int body =
     (case body of
        [] \<Rightarrow> None
      | d # ds \<Rightarrow>
          if \<not> is_digit d then None
          else if length (filter is_digit body) > max_str_digits then None
          else digits_value (digit_val d) ds)"

definition py_int :: "string \<Rightarrow> int option" where
  "py_int s =
     (case int_strip s of
        [] \<Rightarrow> None
      | c # cs \<Rightarrow>
          if c = CHR ''-'' then map_option (\<lambda>n. - int n) (unsigned_int cs)
          else if c = CHR ''+'' then map_option int (unsigned_int cs)
          else map_option int (unsigned_int (c # cs)))"

text \<open>
  The list comprehension \<^verbatim>\<open>[int(x) for x in parts]\<close>: the first component that does
  not parse raises, and the whole comprehension has no value.
\<close>

fun int_all :: "string list \<Rightarrow> int list option" where
  "int_all [] = Some []"
| "int_all (p # ps) =
     (case py_int p of
        None \<Rightarrow> None
      | Some n \<Rightarrow> (case int_all ps of None \<Rightarrow> None | Some ns \<Rightarrow> Some (n # ns)))"

text \<open>
  Python's \<^verbatim>\<open>a > b\<close> on lists of integers: the first position where the lists differ
  decides; when one list is a prefix of the other, the longer one is the greater.
\<close>

fun py_list_gt :: "int list \<Rightarrow> int list \<Rightarrow> bool" where
  "py_list_gt [] ys = False"
| "py_list_gt (x # xs) [] = True"
| "py_list_gt (x # xs) (y # ys) = (if x = y then py_list_gt xs ys else x > y)"

section \<open>update.py: version comparison\<close>

text \<open>
  \<^verbatim>\<open>is_newer_version(current, latest)\<close>. The bare \<^verbatim>\<open>except\<close> turns every exception
  of the body into \<open>False\<close>; \<open>current\<close> is parsed before \<open>latest\<close>.
\<close>

definition is_newer_version :: "string \<Rightarrow> string \<Rightarrow> bool" where
  "is_newer_version current latest =
     (case int_all (split_on CHR ''.'' current) of
        None \<Rightarrow> False
      | Some current_parts \<Rightarrow>
          (case int_all (split_on CHR ''.'' latest) of
             None \<Rightarrow> False
           | Some latest_parts \<Rightarrow>
               (let max_len = max (length current_parts) (length latest_parts);
                    current_padded = current_parts @ replicate (max_len - length current_parts) 0;
                    latest_padded = latest_parts @ replicate (max_len - length latest_parts) 0
                in py_list_gt latest_padded current_padded)))"

text \<open>
  The comparison as the specification words it: both tuples zero-padded to the common
  length, then the strict lexicographic order on integer tuples.
\<close>

definition zero_pad :: "nat \<Rightarrow> int list \<Rightarrow> int list" where
  "zero_pad n xs = xs @ replicate (n - length xs) 0"

definition spec_is_newer :: "int list \<Rightarrow> int list \<Rightarrow> bool" where
  "spec_is_newer current_parts latest_parts =
     (let n = max (length current_parts) (length latest_parts)
      in (zero_pad n current_parts, zero_pad n latest_parts) \<in> lexord {(a, b). a < b})"

section \<open>update.py: manifests, comparison and installation\<close>

text \<open>
  A Python \<^verbatim>\<open>dict\<close> is an association list with distinct keys, in insertion order:
  \<open>map_of\<close> reads a key, \<open>AList.update\<close> is \<^verbatim>\<open>d[k] = v\<close> (in place for a present
  key, appended for a new one) and \<open>AList.delete\<close> is \<^verbatim>\<open>del d[k]\<close>.

  A version manifest is the JSON object of \<^verbatim>\<open>versions.json\<close>; only its optional
  \<^verbatim>\<open>"tools"\<close> entry is read. \<open>tools_of\<close> is \<^verbatim>\<open>versions.get("tools", {})\<close>.
\<close>

type_synonym manifest = "(string \<times> string) list option"

definition tools_of :: "manifest \<Rightarrow> (string \<times> string) list" where
  "tools_of versions = (case versions of None \<Rightarrow> [] | Some tools \<Rightarrow> tools)"

definition dict_get :: "(string \<times> 'v) list \<Rightarrow> string \<Rightarrow> 'v \<Rightarrow> 'v" where
  "dict_get d k dflt = (case map_of d k of None \<Rightarrow> dflt | Some v \<Rightarrow> v)"

record update_info =
  current :: string
  latest :: string

text \<open>The loop of \<^verbatim>\<open>compare_versions\<close> over \<^verbatim>\<open>remote_tools.items()\<close>.\<close>

fun compare_loop ::
  "(string \<times> string) list \<Rightarrow> (string \<times> string) list \<Rightarrow>
   (string \<times> update_info) list \<Rightarrow> (string \<times> update_info) list" where
  "compare_loop local_tools [] updates_available = updates_available"
| "compare_loop local_tools ((tool_name, remote_version) # rest) updates_available =
     (let local_version = dict_get local_tools tool_name ''0.0.0''
      in if is_newer_version local_version remote_version
         then compare_loop local_tools rest
                (AList.update tool_name \<lparr>current = local_version, latest = remote_version\<rparr>
                   updates_available)
         else compare_loop local_tools rest updates_available)"

definition compare_versions :: "manifest \<Rightarrow> manifest \<Rightarrow> (string \<times> update_info) list" where
  "compare_versions local_versions remote_versions =
     compare_loop (tools_of local_versions) (tools_of remote_versions) []"

text \<open>
  The file system seen by \<^verbatim>\<open>update_tools\<close>: whether a tool's folder exists in the
  extracted archive, and whether \<^verbatim>\<open>copy_tool_folder\<close> (remove the destination, copy
  the source; every exception caught) returns \<open>True\<close> for it.
\<close>

record archive =
  source_exists :: "string \<Rightarrow> bool"
  copy_tool_folder :: "string \<Rightarrow> bool"

text \<open>The first loop of \<^verbatim>\<open>update_tools\<close>: it only counts the successful copies.\<close>

fun install_loop :: "archive \<Rightarrow> string list \<Rightarrow> nat \<Rightarrow> nat" where
  "install_loop ar [] success_count = success_count"
| "install_loop ar (tool_name # rest) success_count =
     (if \<not> source_exists ar tool_name then install_loop ar rest success_count
      else if copy_tool_folder ar tool_name then install_loop ar rest (success_count + 1)
      else install_loop ar rest success_count)"

text \<open>
  The second loop: over \<^verbatim>\<open>selected_tools\<close> again, writing the remote version of every
  selected tool the remote manifest knows.
\<close>

fun persist_loop ::
  "(string \<times> string) list \<Rightarrow> string list \<Rightarrow> (string \<times> string) list \<Rightarrow>
   (string \<times> string) list" where
  "persist_loop remote_tools [] local_tools = local_tools"
| "persist_loop remote_tools (tool_name # rest) local_tools =
     (case map_of remote_tools tool_name of
        None \<Rightarrow> persist_loop remote_tools rest local_tools
      | Some remote_version \<Rightarrow>
          persist_loop remote_tools rest (AList.update tool_name remote_version local_tools))"

text \<open>
  \<^verbatim>\<open>update_tools\<close>, on the tools dictionary of the local \<^verbatim>\<open>versions.json\<close> (which
  \<^verbatim>\<open>load_versions\<close> reads and \<^verbatim>\<open>save_versions\<close> writes back; both are taken to
  succeed). The result is the dictionary on disk afterwards and the returned flag.
\<close>

definition update_tools ::
  "archive \<Rightarrow> (string \<times> string) list \<Rightarrow> string list \<Rightarrow> manifest \<Rightarrow>
   (string \<times> string) list \<times> bool" where
  "update_tools ar local_tools selected_tools remote_versions =
     (let success_count = install_loop ar selected_tools 0
      in if success_count > 0
         then (persist_loop (tools_of remote_versions) selected_tools local_tools, True)
         else (local_tools, False))"

section \<open>BulkCommands: the CSV loader\<close>

text \<open>
  The file as \<^verbatim>\<open>csv.reader\<close> delivers it: it cannot be opened, or it is a sequence of
  rows, where reading a row may raise \<^verbatim>\<open>csv.Error\<close>. A blank line is the row \<open>[]\<close>.
\<close>

datatype csv_item = Row "string list" | CsvError string

datatype csv_file = Unreadable string | Readable "csv_item list"

text \<open>The two exception classes the handlers of \<^verbatim>\<open>load_csv_column\<close> tell apart.\<close>

datatype csv_exn = CsvErr string | OtherErr string

definition squote :: string where
  "squote = [CHR 0x27]"

definition column_not_found :: "string \<Rightarrow> string \<Rightarrow> string" where
  "column_not_found column_name csv_path =
     ''Column '' @ squote @ column_name @ squote @ '' not found in '' @ csv_path"

text \<open>
  The dictionary \<^verbatim>\<open>csv.DictReader\<close> builds for one row: \<^verbatim>\<open>dict(zip(fieldnames, row))\<close>,
  then \<open>None\<close> for every field name the row is too short for. (Surplus cells go under the
  key \<^verbatim>\<open>None\<close>, which no column name equals.)
\<close>

definition dict_reader_row :: "string list \<Rightarrow> string list \<Rightarrow> (string \<times> string option) list" where
  "dict_reader_row fieldnames row =
     fold (\<lambda>(k, v) d. AList.update k v d)
       (zip fieldnames (map Some row) @ map (\<lambda>k. (k, None)) (drop (length row) fieldnames))
       []"

text \<open>
  The loop \<^verbatim>\<open>for row in reader\<close>. \<^verbatim>\<open>DictReader\<close> skips rows that are \<open>[]\<close>;
  \<^verbatim>\<open>row[column_name].strip()\<close> raises on a missing key and on the value \<open>None\<close>.
\<close>

fun read_items :: "string \<Rightarrow> string list \<Rightarrow> csv_item list \<Rightarrow> string list \<Rightarrow> csv_exn + string list" where
  "read_items column_name fieldnames [] items = Inr items"
| "read_items column_name fieldnames (CsvError e # rest) items = Inl (CsvErr e)"
| "read_items column_name fieldnames (Row row # rest) items =
     (if row = [] then read_items column_name fieldnames rest items
      else (case map_of (dict_reader_row fieldnames row) column_name of
              None \<Rightarrow> Inl (OtherErr (squote @ column_name @ squote))
            | Some None \<Rightarrow>
                Inl (OtherErr (squote @ ''NoneType'' @ squote @ '' object has no attribute ''
                               @ squote @ ''strip'' @ squote))
            | Some (Some cell) \<Rightarrow>
                (let v = strip cell
                 in if v \<noteq> [] then read_items column_name fieldnames rest (items @ [v])
                    else read_items column_name fieldnames rest items)))"

text \<open>The body of the \<^verbatim>\<open>try\<close> block: open the file, check the header, read the rows.\<close>

definition read_column :: "string \<Rightarrow> string \<Rightarrow> csv_file \<Rightarrow> csv_exn + string list" where
  "read_column csv_path column_name file =
     (case file of
        Unreadable e \<Rightarrow> Inl (OtherErr e)
      | Readable [] \<Rightarrow> Inl (OtherErr (column_not_found column_name csv_path))
      | Readable (CsvError e # rest) \<Rightarrow> Inl (CsvErr e)
      | Readable (Row fieldnames # rest) \<Rightarrow>
          if fieldnames = [] \<or> column_name \<notin> set fieldnames
          then Inl (OtherErr (column_not_found column_name csv_path))
          else read_items column_name fieldnames rest [])"

text \<open>\<^verbatim>\<open>load_csv_column\<close>: \<open>Inl\<close> is the message of the \<^verbatim>\<open>ValueError\<close> raised.\<close>

definition load_csv_column :: "string \<Rightarrow> string \<Rightarrow> csv_file \<Rightarrow> string + string list" where
  "load_csv_column csv_path column_name file =
     (case read_column csv_path column_name file of
        Inl (CsvErr e) \<Rightarrow> Inl (''CSV parsing error in '' @ csv_path @ '': '' @ e)
      | Inl (OtherErr e) \<Rightarrow> Inl (''Error reading '' @ csv_path @ '': '' @ e)
      | Inr items \<Rightarrow> if items = [] then Inl (''No items found in '' @ csv_path) else Inr items)"

text \<open>
  A data row is blank under a column when \<^verbatim>\<open>DictReader\<close> skips it, or when the cell
  it yields for the column is empty after \<^verbatim>\<open>strip()\<close>.
\<close>

definition blank_under :: "string list \<Rightarrow> string \<Rightarrow> csv_item \<Rightarrow> bool" where
  "blank_under fieldnames column_name item =
     (case item of
        CsvError e \<Rightarrow> False
      | Row row \<Rightarrow>
          row = [] \<or>
          (case map_of (dict_reader_row fieldnames row) column_name of
             Some (Some cell) \<Rightarrow> strip cell = []
           | _ \<Rightarrow> False))"

section \<open>SSH sessions and the outside world\<close>

text \<open>
  A session is the identity of one \<^verbatim>\<open>paramiko.SSHClient\<close> object; \<open>next_session\<close>
  numbers the objects in the order they are constructed. Every remote action is
  appended to \<open>trace\<close>. How the outside world answers an action is not decided by the
  program: it is read from an \<open>env\<close>, indexed by the moment of the action (the length
  of the trace so far), so that the same action may succeed once and fail later.

  Console output, the creation of log directories and writes to log files are taken to
  succeed; they are not part of the trace.
\<close>

type_synonym host = string

type_synonym session = nat

text \<open>\<^verbatim>\<open>socket.timeout\<close>, or any other \<^verbatim>\<open>Exception\<close> with its \<^verbatim>\<open>str(e)\<close>.\<close>

datatype exn = SocketTimeout | OtherException string

datatype event =
    Exec session string
  | Close session
  | Connect session host
  | ReadCredentials
  | Input host

text \<open>
  \<open>exec_command\<close>: the call raises, or returns the channels, and reading standard
  output and standard error may each raise in turn. \<open>close\<close> and \<open>connect\<close>:
  \<open>None\<close> when the call returns, the message of the exception otherwise.
  \<open>read_credentials\<close>: opening and unpacking \<^verbatim>\<open>credentials.txt\<close>.
  \<open>user_input\<close>: the line the operator types at a prompt.
\<close>

record env =
  exec_command :: "nat \<Rightarrow> session \<Rightarrow> string \<Rightarrow> exn + ((exn + string) \<times> (exn + string))"
  close :: "nat \<Rightarrow> session \<Rightarrow> string option"
  connect :: "nat \<Rightarrow> host \<Rightarrow> string option"
  read_credentials :: "nat \<Rightarrow> string option"
  user_input :: "nat \<Rightarrow> string"

record state =
  connections :: "(host \<times> session) list"
  next_session :: nat
  trace :: "event list"

definition emit :: "event \<Rightarrow> state \<Rightarrow> state" where
  "emit ev st = st\<lparr>trace := trace st @ [ev]\<rparr>"

text \<open>\<^verbatim>\<open>ssh.close()\<close>: the answer of the world, and the state with the action recorded.\<close>

definition ssh_close :: "env \<Rightarrow> session \<Rightarrow> state \<Rightarrow> string option \<times> state" where
  "ssh_close e ssh st = (close e (length (trace st)) ssh, emit (Close ssh) st)"

text \<open>\<^verbatim>\<open>ssh = paramiko.SSHClient()\<close>: a new object.\<close>

definition new_client :: "state \<Rightarrow> session \<times> state" where
  "new_client st = (next_session st, st\<lparr>next_session := Suc (next_session st)\<rparr>)"

text \<open>\<^verbatim>\<open>ssh.connect(hostname=host, ...)\<close>.\<close>

definition ssh_connect :: "env \<Rightarrow> session \<Rightarrow> host \<Rightarrow> state \<Rightarrow> string option \<times> state" where
  "ssh_connect e ssh h st = (connect e (length (trace st)) h, emit (Connect ssh h) st)"

text \<open>The probe \<^verbatim>\<open>exec_command("show system")\<close>: only whether the call raises matters.\<close>

definition probe :: "env \<Rightarrow> session \<Rightarrow> state \<Rightarrow> bool \<times> state" where
  "probe e ssh st =
     (case exec_command e (length (trace st)) ssh ''show system'' of
        Inl x \<Rightarrow> (False, emit (Exec ssh ''show system'') st)
      | Inr channels \<Rightarrow> (True, emit (Exec ssh ''show system'') st))"

section \<open>main.py: ConnectionManager\<close>

text \<open>
  The second half of \<^verbatim>\<open>get_connection\<close> (lines 73-91): a new client, connected and
  cached, or the exception of \<^verbatim>\<open>connect\<close> raised again with nothing cached.
\<close>

definition create_connection :: "env \<Rightarrow> host \<Rightarrow> state \<Rightarrow> (string + session) \<times> state" where
  "create_connection e h st =
     (case new_client st of
        (ssh, st1) \<Rightarrow>
          (case ssh_connect e ssh h st1 of
             (None, st2) \<Rightarrow> (Inr ssh, st2\<lparr>connections := AList.update h ssh (connections st2)\<rparr>)
           | (Some msg, st2) \<Rightarrow> (Inl msg, st2)))"

definition get_connection :: "env \<Rightarrow> host \<Rightarrow> state \<Rightarrow> (string + session) \<times> state" where
  "get_connection e h st =
     (case map_of (connections st) h of
        None \<Rightarrow> create_connection e h st
      | Some cached \<Rightarrow>
          (case probe e cached st of
             (True, st1) \<Rightarrow> (Inr cached, st1)
           | (False, st1) \<Rightarrow>
               (case ssh_close e cached st1 of
                  (close_result, st2) \<Rightarrow>
                    create_connection e h
                      (st2\<lparr>connections := AList.delete h (connections st2)\<rparr>))))"

text \<open>
  \<^verbatim>\<open>close_all\<close>: the loop over \<^verbatim>\<open>self.connections.items()\<close>, each close in its own
  \<^verbatim>\<open>try\<close> whose handler is \<^verbatim>\<open>pass\<close>, then \<^verbatim>\<open>clear()\<close>. The result type is that of
  a statement that may raise: \<open>Inl\<close> would be an exception leaving the function.
\<close>

fun close_each :: "env \<Rightarrow> (host \<times> session) list \<Rightarrow> state \<Rightarrow> (string + unit) \<times> state" where
  "close_each e [] st = (Inr (), st)"
| "close_each e ((h, ssh_client) # rest) st =
     (case ssh_close e ssh_client st of
        (None, st1) \<Rightarrow> close_each e rest st1
      | (Some msg, st1) \<Rightarrow> close_each e rest st1)"

definition close_all :: "env \<Rightarrow> state \<Rightarrow> (string + unit) \<times> state" where
  "close_all e st =
     (case close_each e (connections st) st of
        (Inl msg, st1) \<Rightarrow> (Inl msg, st1)
      | (Inr u, st1) \<Rightarrow> (Inr (), st1\<lparr>connections := []\<rparr>))"

text \<open>
  \<^verbatim>\<open>close_connection\<close>: \<^verbatim>\<open>del\<close> stands inside the \<^verbatim>\<open>try\<close>, after the close, so an
  exception of the close skips it; the handler only prints.
\<close>

definition close_connection :: "env \<Rightarrow> host \<Rightarrow> state \<Rightarrow> state" where
  "close_connection e h st =
     (case map_of (connections st) h of
        None \<Rightarrow> st
      | Some ssh \<Rightarrow>
          (case ssh_close e ssh st of
             (None, st1) \<Rightarrow> st1\<lparr>connections := AList.delete h (connections st1)\<rparr>
           | (Some msg, st1) \<Rightarrow> st1))"

section \<open>BulkCommands: LocalConnectionManager\<close>

definition local_get_connection :: "env \<Rightarrow> host \<Rightarrow> state \<Rightarrow> (string + session) \<times> state" where
  "local_get_connection e h st =
     (case map_of (connections st) h of
        Some cached \<Rightarrow> (Inr cached, st)
      | None \<Rightarrow>
          (case new_client st of
             (ssh, st1) \<Rightarrow>
               (case ssh_connect e ssh h st1 of
                  (None, st2) \<Rightarrow>
                    (Inr ssh, st2\<lparr>connections := AList.update h ssh (connections st2)\<rparr>)
                | (Some msg, st2) \<Rightarrow>
                    (Inl (''Failed to connect to '' @ h @ '': '' @ msg), st2))))"

definition local_close_all :: "env \<Rightarrow> state \<Rightarrow> (string + unit) \<times> state" where
  "local_close_all e st =
     (case close_each e (connections st) st of
        (Inl msg, st1) \<Rightarrow> (Inl msg, st1)
      | (Inr u, st1) \<Rightarrow> (Inr (), st1\<lparr>connections := []\<rparr>))"

section \<open>FDBSearching: connections\<close>

text \<open>
  \<^verbatim>\<open>get_ssh_connection(switch_ip, ssh_connections)\<close>; the dictionary argument is the
  \<open>connections\<close> field. \<open>open_ssh_connection\<close> is the creation path (lines 104-117):
  the credentials file is read before the client is constructed, and no exception is
  caught.
\<close>

definition open_ssh_connection :: "env \<Rightarrow> host \<Rightarrow> state \<Rightarrow> (string + session) \<times> state" where
  "open_ssh_connection e switch_ip st =
     (case read_credentials e (length (trace st)) of
        Some msg \<Rightarrow> (Inl msg, emit ReadCredentials st)
      | None \<Rightarrow>
          (case new_client (emit ReadCredentials st) of
             (ssh, st1) \<Rightarrow>
               (case ssh_connect e ssh switch_ip st1 of
                  (Some msg, st2) \<Rightarrow> (Inl msg, st2)
                | (None, st2) \<Rightarrow>
                    (Inr ssh,
                     st2\<lparr>connections := AList.update switch_ip ssh (connections st2)\<rparr>))))"

definition get_ssh_connection :: "env \<Rightarrow> host \<Rightarrow> state \<Rightarrow> (string + session) \<times> state" where
  "get_ssh_connection e switch_ip st =
     (case map_of (connections st) switch_ip of
        None \<Rightarrow> open_ssh_connection e switch_ip st
      | Some cached \<Rightarrow>
          (case probe e cached st of
             (True, st1) \<Rightarrow> (Inr cached, st1)
           | (False, st1) \<Rightarrow>
               (case ssh_close e cached st1 of
                  (close_result, st2) \<Rightarrow>
                    open_ssh_connection e switch_ip
                      (st2\<lparr>connections := AList.delete switch_ip (connections st2)\<rparr>))))"

definition close_all_connections :: "env \<Rightarrow> state \<Rightarrow> (string + unit) \<times> state" where
  "close_all_connections e st =
     (case close_each e (connections st) st of
        (Inl msg, st1) \<Rightarrow> (Inl msg, st1)
      | (Inr u, st1) \<Rightarrow> (Inr (), st1\<lparr>connections := []\<rparr>))"

section \<open>BulkCommands: executing commands\<close>

text \<open>
  The body of the \<^verbatim>\<open>try\<close> in \<^verbatim>\<open>execute_command\<close>: the call, then the two reads
  (decoding with \<^verbatim>\<open>errors='replace'\<close> cannot raise).
\<close>

definition run_and_read ::
  "exn + ((exn + string) \<times> (exn + string)) \<Rightarrow> exn + (string \<times> string)" where
  "run_and_read answer =
     (case answer of
        Inl x \<Rightarrow> Inl x
      | Inr (out, err) \<Rightarrow>
          (case out of
             Inl x \<Rightarrow> Inl x
           | Inr output \<Rightarrow> (case err of Inl x \<Rightarrow> Inl x | Inr error \<Rightarrow> Inr (output, error))))"

text \<open>
  \<^verbatim>\<open>execute_command\<close> returns \<^verbatim>\<open>(output, error, success, exec_time)\<close>; the measured
  time is a floating-point difference of wall-clock readings that no decision depends
  on, and is left out.
\<close>

definition execute_command ::
  "env \<Rightarrow> session \<Rightarrow> string \<Rightarrow> state \<Rightarrow> (string \<times> string \<times> bool) \<times> state" where
  "execute_command e ssh command st =
     (case run_and_read (exec_command e (length (trace st)) ssh command) of
        Inr (output, error) \<Rightarrow> ((output, error, True), emit (Exec ssh command) st)
      | Inl SocketTimeout \<Rightarrow>
          (([], ''Command execution timed out'', False), emit (Exec ssh command) st)
      | Inl (OtherException msg) \<Rightarrow> (([], msg, False), emit (Exec ssh command) st))"

datatype status = Success | CompletedWithErrors | Failed

record stats =
  total :: nat
  success :: nat
  errors :: nat
  connection_failed :: bool

text \<open>What \<^verbatim>\<open>process_switch\<close> appends to the log file of a switch.\<close>

datatype log_entry =
    Header host
  | CommandEntry string string string status
  | Footer nat nat nat
  | ConnectionError string

text \<open>
  The loop over the commands in \<^verbatim>\<open>process_switch\<close>. The handler of the inner
  \<^verbatim>\<open>try\<close> is reached only when printing or writing the log raises, which is outside
  this model; \<^verbatim>\<open>execute_command\<close> itself catches everything.
\<close>

fun run_commands ::
  "env \<Rightarrow> session \<Rightarrow> string list \<Rightarrow> stats \<times> log_entry list \<times> state \<Rightarrow>
   stats \<times> log_entry list \<times> state" where
  "run_commands e ssh [] acc = acc"
| "run_commands e ssh (command # rest) (st_counts, log_file, st) =
     (let counted = st_counts\<lparr>total := total st_counts + 1\<rparr>
      in case execute_command e ssh command st of
           ((output, error, ok), st1) \<Rightarrow>
             if ok \<and> error = [] then
               run_commands e ssh rest
                 (counted\<lparr>success := success counted + 1\<rparr>,
                  log_file @ [CommandEntry command output error Success], st1)
             else if ok then
               run_commands e ssh rest
                 (counted\<lparr>errors := errors counted + 1\<rparr>,
                  log_file @ [CommandEntry command output error CompletedWithErrors], st1)
             else
               run_commands e ssh rest
                 (counted\<lparr>errors := errors counted + 1\<rparr>,
                  log_file @ [CommandEntry command output error Failed], st1))"

text \<open>
  \<^verbatim>\<open>process_switch(conn_manager, switch, commands, log_file)\<close>. The connection manager
  is any object with a \<^verbatim>\<open>get_connection\<close> method; here it is the parameter \<open>acquire\<close>.
\<close>

definition process_switch ::
  "(host \<Rightarrow> state \<Rightarrow> (string + session) \<times> state) \<Rightarrow> env \<Rightarrow> host \<Rightarrow> string list \<Rightarrow>
   log_entry list \<Rightarrow> state \<Rightarrow> stats \<times> log_entry list \<times> state" where
  "process_switch acquire e switch commands log_file st =
     (let st_counts = \<lparr>total = 0, success = 0, errors = 0, connection_failed = False\<rparr>
      in case acquire switch st of
           (Inl msg, st1) \<Rightarrow>
             (st_counts\<lparr>connection_failed := True\<rparr>, log_file @ [ConnectionError msg], st1)
         | (Inr ssh, st1) \<Rightarrow>
             (case run_commands e ssh commands (st_counts, log_file @ [Header switch], st1) of
                (final, log1, st2) \<Rightarrow>
                  (final, log1 @ [Footer (total final) (success final) (errors final)], st2)))"

record overall_stats =
  total_switches :: nat
  processed :: nat
  connection_failures :: nat
  total_commands :: nat
  total_success :: nat
  total_errors :: nat

text \<open>
  Step 4 of \<^verbatim>\<open>run_bulk_commands\<close>: the loop over the switches. Every switch gets a
  log file of its own; \<open>logs\<close> collects them in order.
\<close>

fun process_switches ::
  "(host \<Rightarrow> state \<Rightarrow> (string + session) \<times> state) \<Rightarrow> env \<Rightarrow> string list \<Rightarrow> host list \<Rightarrow>
   overall_stats \<times> (host \<times> log_entry list) list \<times> state \<Rightarrow>
   overall_stats \<times> (host \<times> log_entry list) list \<times> state" where
  "process_switches acquire e commands [] acc = acc"
| "process_switches acquire e commands (switch # rest) (overall, logs, st) =
     (case process_switch acquire e switch commands [] st of
        (st_counts, log_file, st1) \<Rightarrow>
          (let o1 = overall\<lparr>processed := processed overall + 1\<rparr>;
               o2 = o1\<lparr>total_commands := total_commands o1 + total st_counts\<rparr>;
               o3 = o2\<lparr>total_success := total_success o2 + success st_counts\<rparr>;
               o4 = o3\<lparr>total_errors := total_errors o3 + errors st_counts\<rparr>;
               o5 = (if connection_failed st_counts
                     then o4\<lparr>connection_failures := connection_failures o4 + 1\<rparr>
                     else o4)
           in process_switches acquire e commands rest (o5, logs @ [(switch, log_file)], st1)))"

text \<open>
  \<^verbatim>\<open>run_bulk_commands\<close> from step 4 on, given the two columns that
  \<^verbatim>\<open>load_csv_column\<close> returned.
\<close>

definition run_bulk_commands ::
  "(host \<Rightarrow> state \<Rightarrow> (string + session) \<times> state) \<Rightarrow> env \<Rightarrow> host list \<Rightarrow> string list \<Rightarrow>
   state \<Rightarrow> overall_stats \<times> (host \<times> log_entry list) list \<times> state" where
  "run_bulk_commands acquire e switches commands st =
     process_switches acquire e commands switches
       (\<lparr>total_switches = length switches, processed = 0, connection_failures = 0,
         total_commands = 0, total_success = 0, total_errors = 0\<rparr>, [], st)"

text \<open>
  The executor's outcome as the specification words it, from what the world answered:
  Success when the call returned and standard error is empty, CompletedWithErrors when
  it returned with standard error non-empty, Failed on an exception; the error text of
  a timeout is the fixed message, that of any other exception is its own message.
\<close>

definition spec_outcome :: "exn + (string \<times> string) \<Rightarrow> status" where
  "spec_outcome answer =
     (case answer of
        Inr (out, err) \<Rightarrow> if err = [] then Success else CompletedWithErrors
      | Inl x \<Rightarrow> Failed)"

definition spec_output :: "exn + (string \<times> string) \<Rightarrow> string" where
  "spec_output answer = (case answer of Inr (out, err) \<Rightarrow> out | Inl x \<Rightarrow> [])"

definition spec_error :: "exn + (string \<times> string) \<Rightarrow> string" where
  "spec_error answer =
     (case answer of
        Inr (out, err) \<Rightarrow> err
      | Inl SocketTimeout \<Rightarrow> ''Command execution timed out''
      | Inl (OtherException msg) \<Rightarrow> msg)"

text \<open>The counters after one more command with the given outcome.\<close>

definition count_outcome :: "status \<Rightarrow> stats \<Rightarrow> stats" where
  "count_outcome s c =
     (if s = Success then c\<lparr>total := total c + 1, success := success c + 1\<rparr>
      else c\<lparr>total := total c + 1, errors := errors c + 1\<rparr>)"

text \<open>The run-wide totals after one more switch with the given counters.\<close>

definition count_switch :: "stats \<Rightarrow> overall_stats \<Rightarrow> overall_stats" where
  "count_switch c overall =
     (let o4 = overall\<lparr>processed := processed overall + 1,
                        total_commands := total_commands overall + total c,
                        total_success := total_success overall + success c,
                        total_errors := total_errors overall + errors c\<rparr>
      in if connection_failed c
         then o4\<lparr>connection_failures := connection_failures o4 + 1\<rparr> else o4)"

text \<open>The commands a log file records, in order.\<close>

fun logged_commands :: "log_entry list \<Rightarrow> string list" where
  "logged_commands [] = []"
| "logged_commands (CommandEntry command output error s # rest) = command # logged_commands rest"
| "logged_commands (entry # rest) = logged_commands rest"

section \<open>FDBSearching: the forwarding-table cache\<close>

text \<open>
  Time is \<^verbatim>\<open>time.time()\<close> in seconds, taken as an exact real number. A cache entry
  is the dictionary \<^verbatim>\<open>{'data': ..., 'timestamp': ...}\<close>.
\<close>

record fdb_entry =
  data :: string
  timestamp :: real

definition cache_duration :: real where
  "cache_duration = 15 * 60"

definition lower_char :: "char \<Rightarrow> char" where
  "lower_char c =
     (let n = (of_char c :: nat) in if 65 \<le> n \<and> n \<le> 90 then char_of (n + 32) else c)"

definition lower :: "string \<Rightarrow> string" where
  "lower s = map lower_char s"

text \<open>Lines 67-78 of \<^verbatim>\<open>get_fdb_info\<close>: fetch, cache, return. An exception propagates.\<close>

definition fetch_fdb ::
  "env \<Rightarrow> session \<Rightarrow> host \<Rightarrow> (host \<times> fdb_entry) list \<Rightarrow> real \<Rightarrow> state \<Rightarrow>
   (exn + string) \<times> (host \<times> fdb_entry) list \<times> state" where
  "fetch_fdb e ssh_client switch_ip fdb_cache current_time st =
     (case exec_command e (length (trace st)) ssh_client ''show fdb'' of
        Inl x \<Rightarrow> (Inl x, fdb_cache, emit (Exec ssh_client ''show fdb'') st)
      | Inr (out, err) \<Rightarrow>
          (case out of
             Inl x \<Rightarrow> (Inl x, fdb_cache, emit (Exec ssh_client ''show fdb'') st)
           | Inr fdb_output \<Rightarrow>
               (Inr fdb_output,
                AList.update switch_ip \<lparr>data = fdb_output, timestamp = current_time\<rparr> fdb_cache,
                emit (Exec ssh_client ''show fdb'') st)))"

definition get_fdb_info ::
  "env \<Rightarrow> session \<Rightarrow> host \<Rightarrow> (host \<times> fdb_entry) list \<Rightarrow> bool \<Rightarrow> real \<Rightarrow> state \<Rightarrow>
   (exn + string) \<times> (host \<times> fdb_entry) list \<times> state" where
  "get_fdb_info e ssh_client switch_ip fdb_cache force_refresh current_time st =
     (case map_of fdb_cache switch_ip of
        None \<Rightarrow> fetch_fdb e ssh_client switch_ip fdb_cache current_time st
      | Some cached_data \<Rightarrow>
          if force_refresh then fetch_fdb e ssh_client switch_ip fdb_cache current_time st
          else
            (let time_since_cache = current_time - timestamp cached_data
             in if time_since_cache < cache_duration then (Inr (data cached_data), fdb_cache, st)
                else if lower (user_input e (length (trace st))) \<noteq> ''y''
                then (Inr (data cached_data), fdb_cache, emit (Input switch_ip) st)
                else fetch_fdb e ssh_client switch_ip fdb_cache current_time
                       (emit (Input switch_ip) st)))"

section \<open>Concrete worlds\<close>

text \<open>
  Answers of the outside world, used to run the functions on concrete inputs:
  every action succeeds with empty output; every close raises.
\<close>

definition empty_state :: state where
  "empty_state = \<lparr>connections = [], next_session = 0, trace = []\<rparr>"

definition all_ok :: env where
  "all_ok = \<lparr>exec_command = (\<lambda>t ssh c. Inr (Inr [], Inr [])), close = (\<lambda>t ssh. None),
              connect = (\<lambda>t h. None), read_credentials = (\<lambda>t. None),
              user_input = (\<lambda>t. ''n'')\<rparr>"

definition close_raises :: env where
  "close_raises = all_ok\<lparr>close := (\<lambda>t ssh. Some ''socket is closed'')\<rparr>"

text \<open>
  Switches on which every command times out, is refused with an exception, or returns
  with text on standard error.
\<close>

definition timing_out :: env where
  "timing_out = all_ok\<lparr>exec_command := (\<lambda>t ssh c. Inl SocketTimeout)\<rparr>"

definition refusing :: env where
  "refusing = all_ok\<lparr>exec_command := (\<lambda>t ssh c. Inl (OtherException ''Channel closed''))\<rparr>"

definition complaining :: env where
  "complaining =
     all_ok\<lparr>exec_command := (\<lambda>t ssh c. Inr (Inr ''partial'', Inr ''Invalid input''))\<rparr>"

text \<open>A world in which only the host \<open>bad\<close> cannot be reached.\<close>

definition one_down :: env where
  "one_down = all_ok\<lparr>connect := (\<lambda>t h. if h = ''bad'' then Some ''timed out'' else None)\<rparr>"

text \<open>
  A switch that answers every command with one forwarding-table line, and an operator
  who answers \<open>N\<close>.
\<close>

definition fdb_switch :: env where
  "fdb_switch = all_ok\<lparr>exec_command := (\<lambda>t ssh c. Inr (Inr ''00:11:22:33:44:55 7'', Inr [])),
                      user_input := (\<lambda>t. ''N'')\<rparr>"

text \<open>
  Sessions are numbered as they are constructed, so in every state the program reaches
  the cached sessions are below \<open>next_session\<close>.
\<close>

definition sessions_allocated :: "state \<Rightarrow> bool" where
  "sessions_allocated st = list_all (\<lambda>(h, ssh). ssh < next_session st) (connections st)"

section \<open>Version comparison\<close>

lemma py_list_gt_lexord: "py_list_gt ys xs \<longleftrightarrow> (xs, ys) \<in> lexord {(a, b). a < b}"
  by (induction ys xs rule: py_list_gt.induct) auto

lemma int_all_None: "int_all ps = None \<longleftrightarrow> (\<exists>p \<in> set ps. py_int p = None)"
  by (induction ps) (auto split: option.splits)

lemma is_newer_version_parsed:
  "int_all (split_on CHR ''.'' cur) = Some cp \<Longrightarrow>
   int_all (split_on CHR ''.'' lat) = Some lp \<Longrightarrow>
   is_newer_version cur lat = spec_is_newer cp lp"
  by (simp add: is_newer_version_def spec_is_newer_def zero_pad_def Let_def py_list_gt_lexord)

lemma is_newer_version_malformed:
  "(\<exists>p \<in> set (split_on CHR ''.'' cur) \<union> set (split_on CHR ''.'' lat). py_int p = None) \<Longrightarrow>
   \<not> is_newer_version cur lat"
proof -
  assume "\<exists>p \<in> set (split_on CHR ''.'' cur) \<union> set (split_on CHR ''.'' lat). py_int p = None"
  then have "int_all (split_on CHR ''.'' cur) = None \<or> int_all (split_on CHR ''.'' lat) = None"
    by (auto simp: int_all_None)
  then show ?thesis
    by (auto simp: is_newer_version_def split: option.splits)
qed

lemma newer_patch_10: "is_newer_version ''1.2.3'' ''1.2.10''"
  by code_simp

lemma not_newer_minor_10: "\<not> is_newer_version ''1.10.0'' ''1.9.9''"
  by code_simp

lemma not_newer_padded: "\<not> is_newer_version ''1.2'' ''1.2.0''"
  by code_simp

lemma not_newer_abc: "\<not> is_newer_version ''abc'' ''1.0.0''"
  by code_simp

lemma py_int_abc: "py_int ''abc'' = None"
  by code_simp

lemma split_abc: "split_on CHR ''.'' ''abc'' = [''abc'']"
  by code_simp

lemma separator_is_malformed: "\<not> is_newer_version ''1'' [CHR 0x1F, CHR ''2'']"
  by code_simp

lemma unsigned_int_too_long:
  "length (filter is_digit body) > max_str_digits \<Longrightarrow> unsigned_int body = None"
  by (cases body) (auto simp: unsigned_int_def)

text \<open>
  Claim C3. \<^verbatim>\<open>is_newer_version(current, latest)\<close> splits both strings on the dot and
  parses every component with \<^verbatim>\<open>int\<close>. When all components parse, the result is the
  strict lexicographic comparison of the two integer tuples, zero-padded to the common
  length, with \<open>latest\<close> the greater. When some component of either string does not
  parse, the result is \<open>False\<close>. On the four inputs of the specification the results are
  \<open>True\<close>, \<open>False\<close>, \<open>False\<close> and \<open>False\<close>; a component with a separator
  character 0x1F before its digit is malformed too.
\<close>

theorem is_newer_version_spec:
  "(\<forall>cp lp. int_all (split_on CHR ''.'' cur) = Some cp \<longrightarrow>
            int_all (split_on CHR ''.'' lat) = Some lp \<longrightarrow>
            is_newer_version cur lat = spec_is_newer cp lp)
   \<and> ((\<exists>p \<in> set (split_on CHR ''.'' cur) \<union> set (split_on CHR ''.'' lat). py_int p = None) \<longrightarrow>
        \<not> is_newer_version cur lat)
   \<and> is_newer_version ''1.2.3'' ''1.2.10''
   \<and> \<not> is_newer_version ''1.10.0'' ''1.9.9''
   \<and> \<not> is_newer_version ''1.2'' ''1.2.0''
   \<and> \<not> is_newer_version ''abc'' ''1.0.0''
   \<and> \<not> is_newer_version ''1'' [CHR 0x1F, CHR ''2'']"
  using is_newer_version_parsed is_newer_version_malformed
    newer_patch_10 not_newer_minor_10 not_newer_padded not_newer_abc separator_is_malformed
  by blast

theorem is_newer_version_spec_witness:
  "int_all (split_on CHR ''.'' ''1.2'') = Some [1, 2]
   \<and> int_all (split_on CHR ''.'' ''1.2.0'') = Some [1, 2, 0]
   \<and> is_newer_version ''1.2'' ''1.2.0'' = spec_is_newer [1, 2] [1, 2, 0]
   \<and> (\<exists>p \<in> set (split_on CHR ''.'' ''abc'') \<union> set (split_on CHR ''.'' ''1.0.0''). py_int p = None)
   \<and> \<not> is_newer_version ''abc'' ''1.0.0''"
proof -
  have a: "int_all (split_on CHR ''.'' ''1.2'') = Some [1, 2]"
    by code_simp
  have b: "int_all (split_on CHR ''.'' ''1.2.0'') = Some [1, 2, 0]"
    by code_simp
  have c: "\<exists>p \<in> set (split_on CHR ''.'' ''abc'') \<union> set (split_on CHR ''.'' ''1.0.0''). py_int p = None"
    using py_int_abc split_abc by simp
  from is_newer_version_spec [of "''1.2''" "''1.2.0''"] a b
  have d: "is_newer_version ''1.2'' ''1.2.0'' = spec_is_newer [1, 2] [1, 2, 0]"
    by blast
  from is_newer_version_spec [of "''abc''" "''1.0.0''"] c
  have e: "\<not> is_newer_version ''abc'' ''1.0.0''"
    by blast
  from a b c d e show ?thesis
    by blast
qed

section \<open>Comparing manifests\<close>

lemma compare_loop_map_of:
  "distinct (map fst remote_tools) \<Longrightarrow>
   map_of (compare_loop local_tools remote_tools acc) t =
     (case map_of remote_tools t of
        None \<Rightarrow> map_of acc t
      | Some rv \<Rightarrow>
          if is_newer_version (dict_get local_tools t ''0.0.0'') rv
          then Some \<lparr>current = dict_get local_tools t ''0.0.0'', latest = rv\<rparr>
          else map_of acc t)"
proof (induction remote_tools arbitrary: acc)
  case Nil
  then show ?case by simp
next
  case (Cons p rest)
  obtain k v where p: "p = (k, v)" by (cases p)
  from Cons.prems p have d: "distinct (map fst rest)" and k: "k \<notin> fst ` set rest"
    by auto
  from k have none: "map_of rest k = None"
    by (simp add: map_of_eq_None_iff)
  show ?case
    using Cons.IH [OF d] none
    by (auto simp: p Let_def update_conv' split: option.splits)
qed

text \<open>
  Claim C10. The remote tools dictionary has distinct keys. A tool of the remote
  manifest that the local manifest lacks is compared as local version \<open>0.0.0\<close>: it is
  reported exactly when its remote version is newer than \<open>0.0.0\<close>, and then with
  \<open>current\<close> equal to \<open>0.0.0\<close> and \<open>latest\<close> the remote version. A tool the remote
  manifest lacks (so every tool that is only local) is never reported.
\<close>

theorem compare_versions_remote_only:
  assumes "distinct (map fst (tools_of remote_versions))"
  shows "(map_of (tools_of remote_versions) t = Some rv
            \<and> map_of (tools_of local_versions) t = None \<longrightarrow>
          map_of (compare_versions local_versions remote_versions) t =
            (if is_newer_version ''0.0.0'' rv
             then Some \<lparr>current = ''0.0.0'', latest = rv\<rparr> else None))
         \<and> (map_of (tools_of remote_versions) t = None \<longrightarrow>
            map_of (compare_versions local_versions remote_versions) t = None)"
  using compare_loop_map_of [OF assms, of "tools_of local_versions" "[]" t]
  by (auto simp: compare_versions_def dict_get_def)

lemma newer_than_zero: "is_newer_version ''0.0.0'' ''0.1''"
  by code_simp

theorem compare_versions_remote_only_witness:
  "distinct (map fst (tools_of (Some [(''A'', ''1.0.1''), (''B'', ''0.1'')])))
   \<and> map_of (tools_of (Some [(''A'', ''1.0.1''), (''B'', ''0.1'')])) ''B'' = Some ''0.1''
   \<and> map_of (tools_of (Some [(''A'', ''1.0.0''), (''L'', ''9'')])) ''B'' = None
   \<and> map_of (compare_versions (Some [(''A'', ''1.0.0''), (''L'', ''9'')])
                (Some [(''A'', ''1.0.1''), (''B'', ''0.1'')])) ''B''
       = Some \<lparr>current = ''0.0.0'', latest = ''0.1''\<rparr>
   \<and> map_of (tools_of (Some [(''A'', ''1.0.1''), (''B'', ''0.1'')])) ''L'' = None
   \<and> map_of (compare_versions (Some [(''A'', ''1.0.0''), (''L'', ''9'')])
                (Some [(''A'', ''1.0.1''), (''B'', ''0.1'')])) ''L'' = None"
proof -
  have d: "distinct (map fst (tools_of (Some [(''A'', ''1.0.1''), (''B'', ''0.1'')])))"
    by (simp add: tools_of_def)
  have r: "map_of (tools_of (Some [(''A'', ''1.0.1''), (''B'', ''0.1'')])) ''B'' = Some ''0.1''"
    by (simp add: tools_of_def)
  have l: "map_of (tools_of (Some [(''A'', ''1.0.0''), (''L'', ''9'')])) ''B'' = None"
    by (simp add: tools_of_def)
  have n: "map_of (tools_of (Some [(''A'', ''1.0.1''), (''B'', ''0.1'')])) ''L'' = None"
    by (simp add: tools_of_def)
  from compare_versions_remote_only
         [OF d, of "''B''" "''0.1''" "Some [(''A'', ''1.0.0''), (''L'', ''9'')]"]
       r l newer_than_zero
  have x: "map_of (compare_versions (Some [(''A'', ''1.0.0''), (''L'', ''9'')])
                (Some [(''A'', ''1.0.1''), (''B'', ''0.1'')])) ''B''
       = Some \<lparr>current = ''0.0.0'', latest = ''0.1''\<rparr>"
    by simp
  from compare_versions_remote_only [OF d, of "''L''" _ "Some [(''A'', ''1.0.0''), (''L'', ''9'')]"] n
  have y: "map_of (compare_versions (Some [(''A'', ''1.0.0''), (''L'', ''9'')])
                (Some [(''A'', ''1.0.1''), (''B'', ''0.1'')])) ''L'' = None"
    by simp
  from d r l n x y show ?thesis
    by blast
qed

section \<open>Installing updates\<close>

text \<open>
  Claim C8, at the input where it fails. Tools \<open>A\<close> and \<open>B\<close> are selected; the archive
  holds a folder for \<open>A\<close> only, so \<open>B\<close> is skipped as "source not found" and its
  folder is not replaced. Because one copy succeeded, the second loop runs over all
  selected tools, and the version written for \<open>B\<close> is the remote \<open>2.0.0\<close>.
\<close>

theorem update_tools_records_failed_tool:
  "update_tools \<lparr>source_exists = (\<lambda>t. t = ''A''), copy_tool_folder = (\<lambda>t. True)\<rparr>
     [(''A'', ''1.0.0''), (''B'', ''1.0.0'')] [''A'', ''B'']
     (Some [(''A'', ''1.1.0''), (''B'', ''2.0.0'')])
   = ([(''A'', ''1.1.0''), (''B'', ''2.0.0'')], True)"
  by (simp add: update_tools_def tools_of_def)

section \<open>The CSV loader\<close>

lemma read_items_all_blank:
  "list_all (blank_under fieldnames column_name) rest \<Longrightarrow>
   read_items column_name fieldnames rest items = Inr items"
  by (induction rest) (auto simp: blank_under_def split: csv_item.splits option.splits)

lemma read_items_cells:
  "read_items column_name fieldnames rest acc = Inr items \<Longrightarrow>
   v \<in> set items \<Longrightarrow>
   v \<in> set acc \<or>
   (v \<noteq> [] \<and> (\<exists>row cell. Row row \<in> set rest
       \<and> map_of (dict_reader_row fieldnames row) column_name = Some (Some cell) \<and> v = strip cell))"
proof (induction column_name fieldnames rest acc rule: read_items.induct)
  case (1 column_name fieldnames items)
  then show ?case by simp
next
  case (2 column_name fieldnames e rest items)
  then show ?case by simp
next
  case (3 column_name fieldnames row rest acc)
  show ?case
  proof (cases "row = []")
    case True
    with 3 show ?thesis by auto
  next
    case False
    with "3.prems" obtain cell where
      cell: "map_of (dict_reader_row fieldnames row) column_name = Some (Some cell)"
      by (auto split: option.splits)
    show ?thesis
    proof (cases "strip cell = []")
      case True
      with False cell "3.prems" "3.IH"(3)[OF False cell refl] show ?thesis
        by (auto simp: Let_def)
    next
      case nb: False
      with False cell "3.prems" "3.IH"(2)[OF False cell refl] show ?thesis
        by (auto simp: Let_def)
    qed
  qed
qed

lemma sublist_path_suffix: "sublist p (xs @ p)"
  by (metis sublist_appendI append_Nil2)

text \<open>
  Claim C9, as the code has it. For a file whose first row is the header:
  when the header holds the column and every data row is blank under it, the loader
  raises \<open>No items found in <file>\<close>, a message that names the file;
  when the header lacks the column, it raises
  \<open>Error reading <file>: Column '<column>' not found in <file>\<close>, which names the file
  and the column; and every value of a returned list is the non-empty stripped content
  of a cell under the column, so blank cells are skipped.
\<close>

theorem load_csv_column_errors:
  "(file = Readable (Row fieldnames # rest) \<and> column_name \<in> set fieldnames
      \<and> list_all (blank_under fieldnames column_name) rest \<longrightarrow>
      load_csv_column csv_path column_name file = Inl (''No items found in '' @ csv_path)
      \<and> sublist csv_path (''No items found in '' @ csv_path))
   \<and> (file = Readable (Row fieldnames # rest) \<and> column_name \<notin> set fieldnames \<longrightarrow>
      (\<exists>msg. load_csv_column csv_path column_name file = Inl msg
         \<and> msg = ''Error reading '' @ csv_path @ '': '' @ column_not_found column_name csv_path
         \<and> sublist csv_path msg \<and> sublist column_name msg))
   \<and> (file = Readable (Row fieldnames # rest)
        \<and> load_csv_column csv_path column_name file = Inr items \<longrightarrow>
      (\<forall>v \<in> set items. v \<noteq> [] \<and> (\<exists>row cell. Row row \<in> set rest
          \<and> map_of (dict_reader_row fieldnames row) column_name = Some (Some cell)
          \<and> v = strip cell)))"
proof (intro conjI impI)
  assume a: "file = Readable (Row fieldnames # rest) \<and> column_name \<in> set fieldnames
      \<and> list_all (blank_under fieldnames column_name) rest"
  then have ne: "fieldnames \<noteq> []" by auto
  from a read_items_all_blank [of fieldnames column_name rest "[]"]
  have "read_column csv_path column_name file = Inr []"
    using ne by (simp add: read_column_def)
  then show "load_csv_column csv_path column_name file = Inl (''No items found in '' @ csv_path)"
    by (simp add: load_csv_column_def)
  show "sublist csv_path (''No items found in '' @ csv_path)"
    by (rule sublist_path_suffix)
next
  assume b: "file = Readable (Row fieldnames # rest) \<and> column_name \<notin> set fieldnames"
  then have m: "load_csv_column csv_path column_name file =
      Inl (''Error reading '' @ csv_path @ '': '' @ column_not_found column_name csv_path)"
    by (simp add: load_csv_column_def read_column_def)
  have s1: "sublist csv_path
      (''Error reading '' @ csv_path @ '': '' @ column_not_found column_name csv_path)"
    by (metis sublist_appendI)
  have s2: "sublist column_name
      (''Error reading '' @ csv_path @ '': '' @ column_not_found column_name csv_path)"
    unfolding column_not_found_def
    by (metis sublist_appendI append.assoc)
  from m s1 s2 show "\<exists>msg. load_csv_column csv_path column_name file = Inl msg
         \<and> msg = ''Error reading '' @ csv_path @ '': '' @ column_not_found column_name csv_path
         \<and> sublist csv_path msg \<and> sublist column_name msg"
    by blast
next
  assume c: "file = Readable (Row fieldnames # rest)
        \<and> load_csv_column csv_path column_name file = Inr items"
  then have "read_column csv_path column_name file = Inr items"
    by (auto simp: load_csv_column_def split: sum.splits csv_exn.splits if_splits)
  with c have "read_items column_name fieldnames rest [] = Inr items"
    by (auto simp: read_column_def split: if_splits)
  from read_items_cells [OF this]
  show "\<forall>v \<in> set items. v \<noteq> [] \<and> (\<exists>row cell. Row row \<in> set rest
          \<and> map_of (dict_reader_row fieldnames row) column_name = Some (Some cell)
          \<and> v = strip cell)"
    by auto
qed

text \<open>
  The claim as stated fails on the all-blank file: the message names the file, not the
  column.
\<close>

theorem blank_column_error_omits_column:
  "load_csv_column ''switches.csv'' ''hostname''
     (Readable [Row [''hostname''], Row ['' ''], Row []])
     = Inl ''No items found in switches.csv''
   \<and> \<not> sublist ''hostname'' ''No items found in switches.csv''"
  by code_simp

lemma blank_cell_row: "blank_under [''hostname''] ''hostname'' (Row ['' ''])"
  by code_simp
lemma blank_empty_row: "blank_under [''hostname''] ''hostname'' (Row [])"
  by code_simp
lemma cell_second_column: "map_of (dict_reader_row [''a'', ''hostname''] [''x'', '' h1 '']) ''hostname'' = Some (Some '' h1 '')"
  by code_simp
lemma load_one_host: "load_csv_column ''s.csv'' ''hostname'' (Readable [Row [''a'', ''hostname''], Row [''x'', '' h1 ''], Row ['''', '''']]) = Inr [''h1'']"
  by code_simp

theorem load_csv_column_errors_witness:
  "load_csv_column ''s.csv'' ''hostname'' (Readable [Row [''hostname''], Row ['' ''], Row []])
      = Inl ''No items found in s.csv''
   \<and> (\<exists>msg. load_csv_column ''s.csv'' ''hostname'' (Readable [Row [''host''], Row [''h1'']]) = Inl msg
        \<and> sublist ''s.csv'' msg \<and> sublist ''hostname'' msg)
   \<and> load_csv_column ''s.csv'' ''hostname''
        (Readable [Row [''a'', ''hostname''], Row [''x'', '' h1 ''], Row ['''', '''']]) = Inr [''h1'']
   \<and> ''h1'' \<noteq> []"
proof -
  have a: "load_csv_column ''s.csv'' ''hostname'' (Readable [Row [''hostname''], Row ['' ''], Row []])
      = Inl ''No items found in s.csv''"
    using load_csv_column_errors [of "Readable [Row [''hostname''], Row ['' ''], Row []]"
        "[''hostname'']" "[Row ['' ''], Row []]" "''hostname''" "''s.csv''"] blank_cell_row blank_empty_row
    by simp
  have b: "\<exists>msg. load_csv_column ''s.csv'' ''hostname'' (Readable [Row [''host''], Row [''h1'']]) = Inl msg
        \<and> sublist ''s.csv'' msg \<and> sublist ''hostname'' msg"
    using load_csv_column_errors [of "Readable [Row [''host''], Row [''h1'']]"
        "[''host'']" "[Row [''h1'']]" "''hostname''" "''s.csv''"]
    by simp
  have c: "''h1'' \<noteq> []"
    using load_csv_column_errors [of "Readable [Row [''a'', ''hostname''], Row [''x'', '' h1 ''], Row ['''', '''']]"
        "[''a'', ''hostname'']" "[Row [''x'', '' h1 ''], Row ['''', '''']]" "''hostname''" "''s.csv''" "[''h1'']"] load_one_host
    by blast
  from a b c load_one_host show ?thesis by blast
qed

section \<open>Connection pools: reuse\<close>

lemmas world_defs = empty_state_def all_ok_def close_raises_def

lemma create_connection_cached:
  "create_connection e h st = (Inr ssh, st1) \<Longrightarrow> map_of (connections st1) h = Some ssh"
  by (auto simp: create_connection_def ssh_connect_def new_client_def emit_def update_conv'
      split: option.splits)

lemma open_ssh_connection_cached:
  "open_ssh_connection e h st = (Inr ssh, st1) \<Longrightarrow> map_of (connections st1) h = Some ssh"
  by (auto simp: open_ssh_connection_def ssh_connect_def new_client_def emit_def update_conv'
      split: option.splits)

lemma get_connection_cached:
  "get_connection e h st = (Inr ssh, st1) \<Longrightarrow> map_of (connections st1) h = Some ssh"
proof (cases "map_of (connections st) h")
  case None
  assume "get_connection e h st = (Inr ssh, st1)"
  with None show ?thesis
    by (simp add: get_connection_def create_connection_cached)
next
  case (Some cached)
  assume g: "get_connection e h st = (Inr ssh, st1)"
  show ?thesis
  proof (cases "exec_command e (length (trace st)) cached ''show system''")
    case (Inr ch)
    with Some g show ?thesis
      by (auto simp: get_connection_def probe_def emit_def)
  next
    case (Inl x)
    with Some g show ?thesis
      by (simp add: get_connection_def probe_def ssh_close_def create_connection_cached)
  qed
qed

lemma get_ssh_connection_cached:
  "get_ssh_connection e h st = (Inr ssh, st1) \<Longrightarrow> map_of (connections st1) h = Some ssh"
proof (cases "map_of (connections st) h")
  case None
  assume "get_ssh_connection e h st = (Inr ssh, st1)"
  with None show ?thesis
    by (simp add: get_ssh_connection_def open_ssh_connection_cached)
next
  case (Some cached)
  assume g: "get_ssh_connection e h st = (Inr ssh, st1)"
  show ?thesis
  proof (cases "exec_command e (length (trace st)) cached ''show system''")
    case (Inr ch)
    with Some g show ?thesis
      by (auto simp: get_ssh_connection_def probe_def emit_def)
  next
    case (Inl x)
    with Some g show ?thesis
      by (simp add: get_ssh_connection_def probe_def ssh_close_def open_ssh_connection_cached)
  qed
qed

lemma local_get_connection_cached:
  "local_get_connection e h st = (Inr ssh, st1) \<Longrightarrow> map_of (connections st1) h = Some ssh"
  by (cases "map_of (connections st) h")
     (auto simp: local_get_connection_def ssh_connect_def new_client_def emit_def update_conv'
      split: option.splits)

lemma get_connection_reuse:
  "map_of (connections st) h = Some ssh \<Longrightarrow>
   exec_command e (length (trace st)) ssh ''show system'' = Inr ch \<Longrightarrow>
   get_connection e h st = (Inr ssh, st\<lparr>trace := trace st @ [Exec ssh ''show system'']\<rparr>)"
  by (simp add: get_connection_def probe_def emit_def)

lemma get_ssh_connection_reuse:
  "map_of (connections st) h = Some ssh \<Longrightarrow>
   exec_command e (length (trace st)) ssh ''show system'' = Inr ch \<Longrightarrow>
   get_ssh_connection e h st = (Inr ssh, st\<lparr>trace := trace st @ [Exec ssh ''show system'']\<rparr>)"
  by (simp add: get_ssh_connection_def probe_def emit_def)

lemma local_get_connection_reuse:
  "map_of (connections st) h = Some ssh \<Longrightarrow> local_get_connection e h st = (Inr ssh, st)"
  by (simp add: local_get_connection_def)

text \<open>
  Claim C1, as the code has it. An acquire that succeeds leaves its session cached
  under the host. In \<^verbatim>\<open>ConnectionManager.get_connection\<close> and in FDBSearching's
  \<^verbatim>\<open>get_ssh_connection\<close>, the next acquire for the host first executes the probe
  \<^verbatim>\<open>show system\<close> on that session, and when the probe does not raise it returns the
  same session and changes nothing else. \<^verbatim>\<open>LocalConnectionManager.get_connection\<close>
  returns the same session too, but executes no probe: the state, trace included, is
  unchanged.
\<close>

theorem acquire_twice_same_session:
  "(get_connection e1 h st = (Inr ssh, st1)
      \<and> exec_command e2 (length (trace st1)) ssh ''show system'' = Inr ch \<longrightarrow>
    get_connection e2 h st1 = (Inr ssh, st1\<lparr>trace := trace st1 @ [Exec ssh ''show system'']\<rparr>))
   \<and> (get_ssh_connection e1 h st = (Inr ssh, st1)
      \<and> exec_command e2 (length (trace st1)) ssh ''show system'' = Inr ch \<longrightarrow>
    get_ssh_connection e2 h st1 = (Inr ssh, st1\<lparr>trace := trace st1 @ [Exec ssh ''show system'']\<rparr>))
   \<and> (local_get_connection e1 h st = (Inr ssh, st1) \<longrightarrow>
    local_get_connection e2 h st1 = (Inr ssh, st1))"
proof (intro conjI impI)
  assume "get_connection e1 h st = (Inr ssh, st1)
      \<and> exec_command e2 (length (trace st1)) ssh ''show system'' = Inr ch"
  then show "get_connection e2 h st1 =
      (Inr ssh, st1\<lparr>trace := trace st1 @ [Exec ssh ''show system'']\<rparr>)"
    using get_connection_cached get_connection_reuse by blast
next
  assume "get_ssh_connection e1 h st = (Inr ssh, st1)
      \<and> exec_command e2 (length (trace st1)) ssh ''show system'' = Inr ch"
  then show "get_ssh_connection e2 h st1 =
      (Inr ssh, st1\<lparr>trace := trace st1 @ [Exec ssh ''show system'']\<rparr>)"
    using get_ssh_connection_cached get_ssh_connection_reuse by blast
next
  assume "local_get_connection e1 h st = (Inr ssh, st1)"
  then show "local_get_connection e2 h st1 = (Inr ssh, st1)"
    using local_get_connection_cached local_get_connection_reuse by blast
qed

lemma first_get_connection:
  "get_connection all_ok ''sw1'' empty_state =
     (Inr 0, \<lparr>connections = [(''sw1'', 0)], next_session = 1, trace = [Connect 0 ''sw1'']\<rparr>)"
  by (simp add: world_defs get_connection_def create_connection_def ssh_connect_def
      new_client_def emit_def)

lemma first_get_ssh_connection:
  "get_ssh_connection all_ok ''sw1'' empty_state =
     (Inr 0, \<lparr>connections = [(''sw1'', 0)], next_session = 1,
              trace = [ReadCredentials, Connect 0 ''sw1'']\<rparr>)"
  by (simp add: world_defs get_ssh_connection_def open_ssh_connection_def ssh_connect_def
      new_client_def emit_def)

lemma first_local_get_connection:
  "local_get_connection all_ok ''sw1'' empty_state =
     (Inr 0, \<lparr>connections = [(''sw1'', 0)], next_session = 1, trace = [Connect 0 ''sw1'']\<rparr>)"
  by (simp add: world_defs local_get_connection_def ssh_connect_def new_client_def emit_def)

lemma probe_all_ok: "exec_command all_ok t ssh c = Inr (Inr [], Inr [])"
  by (simp add: all_ok_def)

theorem acquire_twice_same_session_witness:
  "get_connection all_ok ''sw1'' empty_state =
     (Inr 0, \<lparr>connections = [(''sw1'', 0)], next_session = 1, trace = [Connect 0 ''sw1'']\<rparr>)
   \<and> exec_command all_ok 1 0 ''show system'' = Inr (Inr [], Inr [])
   \<and> get_connection all_ok ''sw1''
        \<lparr>connections = [(''sw1'', 0)], next_session = 1, trace = [Connect 0 ''sw1'']\<rparr> =
     (Inr 0, \<lparr>connections = [(''sw1'', 0)], next_session = 1,
              trace = [Connect 0 ''sw1'', Exec 0 ''show system'']\<rparr>)
   \<and> get_ssh_connection all_ok ''sw1'' empty_state =
     (Inr 0, \<lparr>connections = [(''sw1'', 0)], next_session = 1,
              trace = [ReadCredentials, Connect 0 ''sw1'']\<rparr>)
   \<and> exec_command all_ok 2 0 ''show system'' = Inr (Inr [], Inr [])
   \<and> get_ssh_connection all_ok ''sw1''
        \<lparr>connections = [(''sw1'', 0)], next_session = 1,
         trace = [ReadCredentials, Connect 0 ''sw1'']\<rparr> =
     (Inr 0, \<lparr>connections = [(''sw1'', 0)], next_session = 1,
              trace = [ReadCredentials, Connect 0 ''sw1'', Exec 0 ''show system'']\<rparr>)
   \<and> local_get_connection all_ok ''sw1'' empty_state =
     (Inr 0, \<lparr>connections = [(''sw1'', 0)], next_session = 1, trace = [Connect 0 ''sw1'']\<rparr>)
   \<and> local_get_connection all_ok ''sw1''
        \<lparr>connections = [(''sw1'', 0)], next_session = 1, trace = [Connect 0 ''sw1'']\<rparr> =
     (Inr 0, \<lparr>connections = [(''sw1'', 0)], next_session = 1, trace = [Connect 0 ''sw1'']\<rparr>)"
proof -
  note a = first_get_connection and b = first_get_ssh_connection
    and c = first_local_get_connection
  have p1: "exec_command all_ok 1 0 ''show system'' = Inr (Inr [], Inr [])"
    by (rule probe_all_ok)
  have p2: "exec_command all_ok 2 0 ''show system'' = Inr (Inr [], Inr [])"
    by (rule probe_all_ok)
  have a2: "get_connection all_ok ''sw1''
        \<lparr>connections = [(''sw1'', 0)], next_session = 1, trace = [Connect 0 ''sw1'']\<rparr> =
     (Inr 0, \<lparr>connections = [(''sw1'', 0)], next_session = 1,
              trace = [Connect 0 ''sw1'', Exec 0 ''show system'']\<rparr>)"
    using acquire_twice_same_session
      [of all_ok "''sw1''" empty_state 0
          "\<lparr>connections = [(''sw1'', 0)], next_session = 1, trace = [Connect 0 ''sw1'']\<rparr>"
          all_ok "(Inr [], Inr [])"] a probe_all_ok
    by simp
  have b2: "get_ssh_connection all_ok ''sw1''
        \<lparr>connections = [(''sw1'', 0)], next_session = 1,
         trace = [ReadCredentials, Connect 0 ''sw1'']\<rparr> =
     (Inr 0, \<lparr>connections = [(''sw1'', 0)], next_session = 1,
              trace = [ReadCredentials, Connect 0 ''sw1'', Exec 0 ''show system'']\<rparr>)"
    using acquire_twice_same_session
      [of all_ok "''sw1''" empty_state 0
          "\<lparr>connections = [(''sw1'', 0)], next_session = 1,
            trace = [ReadCredentials, Connect 0 ''sw1'']\<rparr>"
          all_ok "(Inr [], Inr [])"] b probe_all_ok
    by simp
  have c2: "local_get_connection all_ok ''sw1''
        \<lparr>connections = [(''sw1'', 0)], next_session = 1, trace = [Connect 0 ''sw1'']\<rparr> =
     (Inr 0, \<lparr>connections = [(''sw1'', 0)], next_session = 1, trace = [Connect 0 ''sw1'']\<rparr>)"
    using acquire_twice_same_session
      [of all_ok "''sw1''" empty_state 0
          "\<lparr>connections = [(''sw1'', 0)], next_session = 1, trace = [Connect 0 ''sw1'']\<rparr>"
          all_ok] c
    by simp
  from a p1 a2 b p2 b2 c c2 show ?thesis
    by blast
qed

text \<open>
  The claim as stated fails for \<^verbatim>\<open>LocalConnectionManager\<close>: after two acquires of the
  same host the trace holds the connect and no probe.
\<close>

theorem local_get_connection_no_probe:
  "local_get_connection all_ok ''sw1'' empty_state =
     (Inr 0, \<lparr>connections = [(''sw1'', 0)], next_session = 1, trace = [Connect 0 ''sw1'']\<rparr>)
   \<and> local_get_connection all_ok ''sw1''
        \<lparr>connections = [(''sw1'', 0)], next_session = 1, trace = [Connect 0 ''sw1'']\<rparr> =
     (Inr 0, \<lparr>connections = [(''sw1'', 0)], next_session = 1, trace = [Connect 0 ''sw1'']\<rparr>)
   \<and> Exec 0 ''show system'' \<notin> set [Connect 0 ''sw1'']"
  by (simp add: world_defs local_get_connection_def ssh_connect_def new_client_def emit_def)

section \<open>Connection pools: release\<close>

text \<open>
  Claim C6, at the input where it fails. The pool caches session 0 for \<open>sw1\<close> and the
  close raises: the handler prints, the \<^verbatim>\<open>del\<close> is skipped, and \<open>sw1\<close> is still a key
  of the pool afterwards.
\<close>

theorem close_connection_keeps_entry:
  "close_connection close_raises ''sw1''
     \<lparr>connections = [(''sw1'', 0)], next_session = 1, trace = []\<rparr>
   = \<lparr>connections = [(''sw1'', 0)], next_session = 1, trace = [Close 0]\<rparr>"
  by (simp add: world_defs close_connection_def ssh_close_def emit_def)

lemma close_connection_removes:
  "map_of (connections st) h = Some ssh \<Longrightarrow> close e (length (trace st)) ssh = None \<Longrightarrow>
   map_of (connections (close_connection e h st)) h = None"
  by (simp add: close_connection_def ssh_close_def emit_def AList.delete_conv')

lemma close_connection_absent:
  "map_of (connections st) h = None \<Longrightarrow> close_connection e h st = st"
  by (simp add: close_connection_def)

lemma close_each_returns:
  "\<exists>st1. close_each e conns st = (Inr (), st1) \<and> connections st1 = connections st
      \<and> next_session st1 = next_session st"
proof (induction conns arbitrary: st)
  case Nil
  then show ?case by simp
next
  case (Cons p conns)
  obtain h ssh where p: "p = (h, ssh)" by (cases p)
  from Cons [of "emit (Close ssh) st"] show ?case
    by (cases "close e (length (trace st)) ssh") (auto simp: p ssh_close_def emit_def)
qed

lemma close_each_trace:
  "trace (snd (close_each e conns st)) = trace st @ map (\<lambda>(h, ssh). Close ssh) conns"
proof (induction conns arbitrary: st)
  case Nil
  then show ?case by simp
next
  case (Cons p conns)
  obtain h ssh where p: "p = (h, ssh)" by (cases p)
  from Cons [of "emit (Close ssh) st"] show ?case
    by (cases "close e (length (trace st)) ssh") (auto simp: p ssh_close_def emit_def)
qed

lemma create_connection_fresh:
  "create_connection e h st = (Inr ssh, st1) \<Longrightarrow>
   ssh = next_session st \<and> trace st1 = trace st @ [Connect ssh h]"
  by (auto simp: create_connection_def ssh_connect_def new_client_def emit_def
      split: option.splits)

lemma open_ssh_connection_fresh:
  "open_ssh_connection e h st = (Inr ssh, st1) \<Longrightarrow>
   ssh = next_session st \<and> trace st1 = trace st @ [ReadCredentials, Connect ssh h]"
  by (auto simp: open_ssh_connection_def ssh_connect_def new_client_def emit_def
      split: option.splits)

lemma allocated_not_next:
  "sessions_allocated st \<Longrightarrow> next_session st \<notin> snd ` set (connections st)"
  by (auto simp: sessions_allocated_def list_all_iff)

lemma close_all_returns:
  "\<exists>st1. close_all e st = (Inr (), st1) \<and> connections st1 = []
      \<and> next_session st1 = next_session st"
  using close_each_returns [of e "connections st" st]
  by (auto simp: close_all_def)

lemma close_all_connections_returns:
  "\<exists>st1. close_all_connections e st = (Inr (), st1) \<and> connections st1 = []
      \<and> next_session st1 = next_session st"
  using close_each_returns [of e "connections st" st]
  by (auto simp: close_all_connections_def)

lemma local_close_all_returns:
  "\<exists>st1. local_close_all e st = (Inr (), st1) \<and> connections st1 = []
      \<and> next_session st1 = next_session st"
  using close_each_returns [of e "connections st" st]
  by (auto simp: local_close_all_def)

lemma get_connection_empty_pool:
  "connections st1 = [] \<Longrightarrow> get_connection e h st1 = create_connection e h st1"
  by (simp add: get_connection_def)

lemma get_ssh_connection_empty_pool:
  "connections st1 = [] \<Longrightarrow> get_ssh_connection e h st1 = open_ssh_connection e h st1"
  by (simp add: get_ssh_connection_def)

lemma local_get_connection_fresh:
  "connections st1 = [] \<Longrightarrow> local_get_connection e h st1 = (Inr ssh, st2) \<Longrightarrow>
   ssh = next_session st1 \<and> trace st2 = trace st1 @ [Connect ssh h]"
  by (auto simp: local_get_connection_def ssh_connect_def new_client_def emit_def
      split: option.splits)

text \<open>
  Claim C5. \<^verbatim>\<open>close_all\<close> (main.py, and the one of \<^verbatim>\<open>LocalConnectionManager\<close>)
  and \<^verbatim>\<open>close_all_connections\<close> (FDBSearching)
  return normally whatever the closes do, and leave the pool empty. An acquire for any
  host in the state they leave takes the creation path: when it succeeds, the session
  is the newly constructed client, the only actions recorded are those of the creation
  (no probe of a cached session), and the session is none of those the pool held before
  the release.
\<close>

theorem release_all_empties_pool:
  "(\<exists>st1. close_all e st = (Inr (), st1) \<and> connections st1 = []
      \<and> (\<forall>e2 h ssh st2. get_connection e2 h st1 = (Inr ssh, st2) \<longrightarrow>
            ssh = next_session st \<and> trace st2 = trace st1 @ [Connect ssh h]
            \<and> (sessions_allocated st \<longrightarrow> ssh \<notin> snd ` set (connections st))))
   \<and> (\<exists>st1. close_all_connections e st = (Inr (), st1) \<and> connections st1 = []
      \<and> (\<forall>e2 h ssh st2. get_ssh_connection e2 h st1 = (Inr ssh, st2) \<longrightarrow>
            ssh = next_session st \<and> trace st2 = trace st1 @ [ReadCredentials, Connect ssh h]
            \<and> (sessions_allocated st \<longrightarrow> ssh \<notin> snd ` set (connections st))))
   \<and> (\<exists>st1. local_close_all e st = (Inr (), st1) \<and> connections st1 = []
      \<and> (\<forall>e2 h ssh st2. local_get_connection e2 h st1 = (Inr ssh, st2) \<longrightarrow>
            ssh = next_session st \<and> trace st2 = trace st1 @ [Connect ssh h]
            \<and> (sessions_allocated st \<longrightarrow> ssh \<notin> snd ` set (connections st))))"
proof (intro conjI)
  obtain st1 where c: "close_all e st = (Inr (), st1)" and e: "connections st1 = []"
    and n: "next_session st1 = next_session st"
    using close_all_returns by blast
  have "\<forall>e2 h ssh st2. get_connection e2 h st1 = (Inr ssh, st2) \<longrightarrow>
            ssh = next_session st \<and> trace st2 = trace st1 @ [Connect ssh h]
            \<and> (sessions_allocated st \<longrightarrow> ssh \<notin> snd ` set (connections st))"
    using get_connection_empty_pool [OF e] create_connection_fresh n allocated_not_next
    by metis
  with c e show "\<exists>st1. close_all e st = (Inr (), st1) \<and> connections st1 = []
      \<and> (\<forall>e2 h ssh st2. get_connection e2 h st1 = (Inr ssh, st2) \<longrightarrow>
            ssh = next_session st \<and> trace st2 = trace st1 @ [Connect ssh h]
            \<and> (sessions_allocated st \<longrightarrow> ssh \<notin> snd ` set (connections st)))"
    by blast
next
  obtain st1 where c: "close_all_connections e st = (Inr (), st1)" and e: "connections st1 = []"
    and n: "next_session st1 = next_session st"
    using close_all_connections_returns by blast
  have "\<forall>e2 h ssh st2. get_ssh_connection e2 h st1 = (Inr ssh, st2) \<longrightarrow>
            ssh = next_session st \<and> trace st2 = trace st1 @ [ReadCredentials, Connect ssh h]
            \<and> (sessions_allocated st \<longrightarrow> ssh \<notin> snd ` set (connections st))"
    using get_ssh_connection_empty_pool [OF e] open_ssh_connection_fresh n allocated_not_next
    by metis
  with c e show "\<exists>st1. close_all_connections e st = (Inr (), st1) \<and> connections st1 = []
      \<and> (\<forall>e2 h ssh st2. get_ssh_connection e2 h st1 = (Inr ssh, st2) \<longrightarrow>
            ssh = next_session st \<and> trace st2 = trace st1 @ [ReadCredentials, Connect ssh h]
            \<and> (sessions_allocated st \<longrightarrow> ssh \<notin> snd ` set (connections st)))"
    by blast
next
  obtain st1 where c: "local_close_all e st = (Inr (), st1)" and e: "connections st1 = []"
    and n: "next_session st1 = next_session st"
    using local_close_all_returns by blast
  have "\<forall>e2 h ssh st2. local_get_connection e2 h st1 = (Inr ssh, st2) \<longrightarrow>
            ssh = next_session st \<and> trace st2 = trace st1 @ [Connect ssh h]
            \<and> (sessions_allocated st \<longrightarrow> ssh \<notin> snd ` set (connections st))"
    using local_get_connection_fresh [OF e] n allocated_not_next
    by metis
  with c e show "\<exists>st1. local_close_all e st = (Inr (), st1) \<and> connections st1 = []
      \<and> (\<forall>e2 h ssh st2. local_get_connection e2 h st1 = (Inr ssh, st2) \<longrightarrow>
            ssh = next_session st \<and> trace st2 = trace st1 @ [Connect ssh h]
            \<and> (sessions_allocated st \<longrightarrow> ssh \<notin> snd ` set (connections st)))"
    by blast
qed

lemma two_sessions_allocated:
  "sessions_allocated \<lparr>connections = [(''sw1'', 0), (''sw2'', 1)], next_session = 2, trace = []\<rparr>"
  by (simp add: sessions_allocated_def)

lemma close_all_two_failing:
  "close_all close_raises
     \<lparr>connections = [(''sw1'', 0), (''sw2'', 1)], next_session = 2, trace = []\<rparr>
   = (Inr (), \<lparr>connections = [], next_session = 2, trace = [Close 0, Close 1]\<rparr>)"
  by (simp add: world_defs close_all_def ssh_close_def emit_def)

lemma close_all_connections_two_failing:
  "close_all_connections close_raises
     \<lparr>connections = [(''sw1'', 0), (''sw2'', 1)], next_session = 2, trace = []\<rparr>
   = (Inr (), \<lparr>connections = [], next_session = 2, trace = [Close 0, Close 1]\<rparr>)"
  by (simp add: world_defs close_all_connections_def ssh_close_def emit_def)

lemma get_connection_after_release:
  "get_connection all_ok ''sw1''
     \<lparr>connections = [], next_session = 2, trace = [Close 0, Close 1]\<rparr>
   = (Inr 2, \<lparr>connections = [(''sw1'', 2)], next_session = 3,
              trace = [Close 0, Close 1, Connect 2 ''sw1'']\<rparr>)"
  by (simp add: world_defs get_connection_def create_connection_def ssh_connect_def
      new_client_def emit_def)

lemma get_ssh_connection_after_release:
  "get_ssh_connection all_ok ''sw1''
     \<lparr>connections = [], next_session = 2, trace = [Close 0, Close 1]\<rparr>
   = (Inr 2, \<lparr>connections = [(''sw1'', 2)], next_session = 3,
              trace = [Close 0, Close 1, ReadCredentials, Connect 2 ''sw1'']\<rparr>)"
  by (simp add: world_defs get_ssh_connection_def open_ssh_connection_def ssh_connect_def
      new_client_def emit_def)

theorem release_all_empties_pool_witness:
  "close_all close_raises
     \<lparr>connections = [(''sw1'', 0), (''sw2'', 1)], next_session = 2, trace = []\<rparr>
   = (Inr (), \<lparr>connections = [], next_session = 2, trace = [Close 0, Close 1]\<rparr>)
   \<and> get_connection all_ok ''sw1''
       \<lparr>connections = [], next_session = 2, trace = [Close 0, Close 1]\<rparr>
     = (Inr 2, \<lparr>connections = [(''sw1'', 2)], next_session = 3,
                trace = [Close 0, Close 1, Connect 2 ''sw1'']\<rparr>)
   \<and> close_all_connections close_raises
       \<lparr>connections = [(''sw1'', 0), (''sw2'', 1)], next_session = 2, trace = []\<rparr>
     = (Inr (), \<lparr>connections = [], next_session = 2, trace = [Close 0, Close 1]\<rparr>)
   \<and> get_ssh_connection all_ok ''sw1''
       \<lparr>connections = [], next_session = 2, trace = [Close 0, Close 1]\<rparr>
     = (Inr 2, \<lparr>connections = [(''sw1'', 2)], next_session = 3,
                trace = [Close 0, Close 1, ReadCredentials, Connect 2 ''sw1'']\<rparr>)
   \<and> sessions_allocated
       \<lparr>connections = [(''sw1'', 0), (''sw2'', 1)], next_session = 2, trace = []\<rparr>
   \<and> (2::nat) \<notin> snd ` set (connections
       \<lparr>connections = [(''sw1'', 0), (''sw2'', 1)], next_session = 2, trace = []\<rparr>)"
proof -
  let ?S = "\<lparr>connections = [(''sw1'', 0), (''sw2'', 1)], next_session = 2, trace = []\<rparr>"
  let ?S1 = "\<lparr>connections = [], next_session = 2, trace = [Close 0, Close 1]\<rparr>"
  from release_all_empties_pool [of close_raises ?S]
  obtain st1 where c: "close_all close_raises ?S = (Inr (), st1)"
    and f: "\<forall>e2 h ssh st2. get_connection e2 h st1 = (Inr ssh, st2) \<longrightarrow>
            ssh = next_session ?S \<and> trace st2 = trace st1 @ [Connect ssh h]
            \<and> (sessions_allocated ?S \<longrightarrow> ssh \<notin> snd ` set (connections ?S))"
    by blast
  from c close_all_two_failing have "st1 = ?S1"
    by simp
  with f get_connection_after_release two_sessions_allocated
  have "(2::nat) \<notin> snd ` set (connections ?S)"
    by blast
  with close_all_two_failing get_connection_after_release close_all_connections_two_failing
    get_ssh_connection_after_release two_sessions_allocated
  show ?thesis
    by blast
qed

lemma sessions_allocated_empty: "sessions_allocated empty_state"
  by (simp add: sessions_allocated_def empty_state_def)

lemma list_all_update:
  "list_all (\<lambda>(h, s). s < n) conns \<Longrightarrow> v < n \<Longrightarrow> list_all (\<lambda>(h, s). s < n) (AList.update k v conns)"
  by (induction conns) auto

lemma list_all_delete:
  "list_all P conns \<Longrightarrow> list_all P (AList.delete k conns)"
  by (induction conns) auto

lemma list_all_less_Suc:
  "list_all (\<lambda>(h, s). s < n) conns \<Longrightarrow> list_all (\<lambda>(h, s). s < Suc n) conns"
  by (induction conns) auto

lemma create_connection_allocated:
  "sessions_allocated st \<Longrightarrow> sessions_allocated (snd (create_connection e h st))"
  by (cases "connect e (length (trace st)) h")
     (auto simp: sessions_allocated_def create_connection_def ssh_connect_def new_client_def
        emit_def list_all_update list_all_less_Suc)

lemma get_connection_allocated:
  "sessions_allocated st \<Longrightarrow> sessions_allocated (snd (get_connection e h st))"
proof (cases "map_of (connections st) h")
  case None
  assume "sessions_allocated st"
  with None show ?thesis by (simp add: get_connection_def create_connection_allocated)
next
  case (Some cached)
  assume a: "sessions_allocated st"
  show ?thesis
  proof (cases "exec_command e (length (trace st)) cached ''show system''")
    case (Inr ch)
    with Some a show ?thesis
      by (simp add: get_connection_def probe_def emit_def sessions_allocated_def)
  next
    case (Inl x)
    from a have "sessions_allocated
        (emit (Close cached) (emit (Exec cached ''show system'') st)
           \<lparr>connections := AList.delete h (connections st)\<rparr>)"
      by (simp add: sessions_allocated_def emit_def list_all_delete)
    from create_connection_allocated [OF this] Some Inl show ?thesis
      by (simp add: get_connection_def probe_def ssh_close_def emit_def)
  qed
qed

lemma open_ssh_connection_allocated:
  "sessions_allocated st \<Longrightarrow> sessions_allocated (snd (open_ssh_connection e h st))"
  by (cases "read_credentials e (length (trace st))";
      cases "connect e (Suc (length (trace st))) h")
     (auto simp: sessions_allocated_def open_ssh_connection_def ssh_connect_def new_client_def
        emit_def list_all_update list_all_less_Suc)

lemma get_ssh_connection_allocated:
  "sessions_allocated st \<Longrightarrow> sessions_allocated (snd (get_ssh_connection e h st))"
proof (cases "map_of (connections st) h")
  case None
  assume "sessions_allocated st"
  with None show ?thesis
    by (simp add: get_ssh_connection_def open_ssh_connection_allocated)
next
  case (Some cached)
  assume a: "sessions_allocated st"
  show ?thesis
  proof (cases "exec_command e (length (trace st)) cached ''show system''")
    case (Inr ch)
    with Some a show ?thesis
      by (simp add: get_ssh_connection_def probe_def emit_def sessions_allocated_def)
  next
    case (Inl x)
    from a have "sessions_allocated
        (emit (Close cached) (emit (Exec cached ''show system'') st)
           \<lparr>connections := AList.delete h (connections st)\<rparr>)"
      by (simp add: sessions_allocated_def emit_def list_all_delete)
    from open_ssh_connection_allocated [OF this] Some Inl show ?thesis
      by (simp add: get_ssh_connection_def probe_def ssh_close_def emit_def)
  qed
qed

lemma local_get_connection_allocated:
  "sessions_allocated st \<Longrightarrow> sessions_allocated (snd (local_get_connection e h st))"
  by (cases "map_of (connections st) h"; cases "connect e (length (trace st)) h")
     (auto simp: sessions_allocated_def local_get_connection_def ssh_connect_def new_client_def
        emit_def list_all_update list_all_less_Suc)

section \<open>Executing commands\<close>

lemma run_one_command:
  "run_commands e ssh [c] (counts, log_file, st) =
     (count_outcome (spec_outcome (run_and_read (exec_command e (length (trace st)) ssh c))) counts,
      log_file @ [CommandEntry c
          (spec_output (run_and_read (exec_command e (length (trace st)) ssh c)))
          (spec_error (run_and_read (exec_command e (length (trace st)) ssh c)))
          (spec_outcome (run_and_read (exec_command e (length (trace st)) ssh c)))],
      emit (Exec ssh c) st)"
proof (cases "run_and_read (exec_command e (length (trace st)) ssh c)")
  case (Inl x)
  then show ?thesis
    by (cases x)
       (simp_all add: execute_command_def spec_outcome_def spec_output_def spec_error_def
          count_outcome_def)
next
  case (Inr r)
  obtain out err where r: "r = (out, err)" by (cases r)
  with Inr show ?thesis
    by (simp add: execute_command_def spec_outcome_def spec_output_def spec_error_def
          count_outcome_def)
qed

lemma run_commands_step:
  "run_commands e ssh (c # rest) acc = run_commands e ssh rest (run_commands e ssh [c] acc)"
proof -
  obtain counts log_file st where acc: "acc = (counts, log_file, st)" by (cases acc)
  obtain out err ok st1 where x: "execute_command e ssh c st = ((out, err, ok), st1)"
    by (metis prod.exhaust)
  show ?thesis by (simp add: acc x Let_def)
qed

lemma logged_commands_append:
  "logged_commands (xs @ ys) = logged_commands xs @ logged_commands ys"
  by (induction xs rule: logged_commands.induct) auto

lemma run_commands_effect:
  "\<exists>counts1 log1 st1. run_commands e ssh commands (counts, log_file, st) = (counts1, log1, st1)
     \<and> total counts1 = total counts + length commands
     \<and> success counts1 + errors counts1 = success counts + errors counts + length commands
     \<and> connection_failed counts1 = connection_failed counts
     \<and> logged_commands log1 = logged_commands log_file @ commands
     \<and> trace st1 = trace st @ map (Exec ssh) commands
     \<and> connections st1 = connections st \<and> next_session st1 = next_session st"
proof (induction commands arbitrary: counts log_file st)
  case Nil
  then show ?case by simp
next
  case (Cons c commands)
  let ?a = "run_and_read (exec_command e (length (trace st)) ssh c)"
  from Cons [of "count_outcome (spec_outcome ?a) counts"
      "log_file @ [CommandEntry c (spec_output ?a) (spec_error ?a) (spec_outcome ?a)]"
      "emit (Exec ssh c) st"]
  show ?case
    unfolding run_commands_step [of e ssh c commands] run_one_command
    by (auto simp: count_outcome_def emit_def logged_commands_append)
qed

lemma run_commands_trace:
  "trace (snd (snd (run_commands e ssh commands (counts, log_file, st)))) =
     trace st @ map (Exec ssh) commands"
  using run_commands_effect [of e ssh commands counts log_file st] by auto

lemma spec_outcome_cases:
  "(spec_outcome a = Success) = (\<exists>out. a = Inr (out, []))
   \<and> (spec_outcome a = CompletedWithErrors) = (\<exists>out err. a = Inr (out, err) \<and> err \<noteq> [])
   \<and> (spec_outcome a = Failed) = (\<exists>x. a = Inl x)"
  by (cases a) (auto simp: spec_outcome_def split: if_splits)

lemma execute_command_result:
  "fst (execute_command e ssh c st) =
     (spec_output (run_and_read (exec_command e (length (trace st)) ssh c)),
      spec_error (run_and_read (exec_command e (length (trace st)) ssh c)),
      spec_outcome (run_and_read (exec_command e (length (trace st)) ssh c)) \<noteq> Failed)"
proof (cases "run_and_read (exec_command e (length (trace st)) ssh c)")
  case (Inl x)
  then show ?thesis
    by (cases x)
       (simp_all add: execute_command_def spec_outcome_def spec_output_def spec_error_def)
next
  case (Inr r)
  obtain out err where r: "r = (out, err)" by (cases r)
  with Inr show ?thesis
    by (simp add: execute_command_def spec_outcome_def spec_output_def spec_error_def)
qed

lemma logged_status:
  "(\<exists>cnt out err st1. run_commands e ssh [c] (counts, log_file, st) =
       (cnt, log_file @ [CommandEntry c out err s], st1))
   = (spec_outcome (run_and_read (exec_command e (length (trace st)) ssh c)) = s)"
  unfolding run_one_command by auto

lemma outcome_success:
  "(spec_outcome (run_and_read a) = Success) = (\<exists>out. a = Inr (Inr out, Inr []))"
  by (auto simp: run_and_read_def spec_outcome_def split: sum.splits prod.splits if_splits)

lemma outcome_completed:
  "(spec_outcome (run_and_read a) = CompletedWithErrors) =
     (\<exists>out err. a = Inr (Inr out, Inr err) \<and> err \<noteq> [])"
  by (auto simp: run_and_read_def spec_outcome_def split: sum.splits prod.splits if_splits)

lemma outcome_failed:
  "(spec_outcome (run_and_read a) = Failed) =
     (\<exists>x. a = Inl x \<or> (\<exists>r. a = Inr (Inl x, r)) \<or> (\<exists>out. a = Inr (Inr out, Inl x)))"
  by (auto simp: run_and_read_def spec_outcome_def split: sum.splits prod.splits if_splits)

lemma answer_success:
  "exec_command e (length (trace st)) ssh c = Inr (Inr out, Inr []) \<Longrightarrow>
   execute_command e ssh c st = ((out, [], True), emit (Exec ssh c) st)
   \<and> run_commands e ssh [c] (counts, log_file, st) =
       (counts\<lparr>total := total counts + 1, success := success counts + 1\<rparr>,
        log_file @ [CommandEntry c out [] Success], emit (Exec ssh c) st)"
  by (simp add: execute_command_def run_and_read_def)

lemma answer_completed:
  "exec_command e (length (trace st)) ssh c = Inr (Inr out, Inr err) \<Longrightarrow> err \<noteq> [] \<Longrightarrow>
   execute_command e ssh c st = ((out, err, True), emit (Exec ssh c) st)
   \<and> run_commands e ssh [c] (counts, log_file, st) =
       (counts\<lparr>total := total counts + 1, errors := errors counts + 1\<rparr>,
        log_file @ [CommandEntry c out err CompletedWithErrors], emit (Exec ssh c) st)"
  by (simp add: execute_command_def run_and_read_def)

lemma answer_timeout:
  "exec_command e (length (trace st)) ssh c = Inl SocketTimeout
     \<or> exec_command e (length (trace st)) ssh c = Inr (Inl SocketTimeout, r)
     \<or> exec_command e (length (trace st)) ssh c = Inr (Inr out, Inl SocketTimeout) \<Longrightarrow>
   execute_command e ssh c st =
       (([], ''Command execution timed out'', False), emit (Exec ssh c) st)
   \<and> run_commands e ssh [c] (counts, log_file, st) =
       (counts\<lparr>total := total counts + 1, errors := errors counts + 1\<rparr>,
        log_file @ [CommandEntry c [] ''Command execution timed out'' Failed],
        emit (Exec ssh c) st)"
  by (auto simp: execute_command_def run_and_read_def)

lemma answer_exception:
  "exec_command e (length (trace st)) ssh c = Inl (OtherException msg)
     \<or> exec_command e (length (trace st)) ssh c = Inr (Inl (OtherException msg), r)
     \<or> exec_command e (length (trace st)) ssh c = Inr (Inr out, Inl (OtherException msg)) \<Longrightarrow>
   execute_command e ssh c st = (([], msg, False), emit (Exec ssh c) st)
   \<and> run_commands e ssh [c] (counts, log_file, st) =
       (counts\<lparr>total := total counts + 1, errors := errors counts + 1\<rparr>,
        log_file @ [CommandEntry c [] msg Failed], emit (Exec ssh c) st)"
  by (auto simp: execute_command_def run_and_read_def)


text \<open>
  Claim C7. Let the answer be what the world returns for the command: the call raises,
  or it returns and each of the two reads returns or raises.
  When the call and both reads return and standard error is empty, \<^verbatim>\<open>execute_command\<close>
  returns the output with the success flag and the loop of \<^verbatim>\<open>process_switch\<close> logs
  Success and counts a success; when standard error is non-empty it logs
  CompletedWithErrors and counts an error. When the call or a read raises
  \<^verbatim>\<open>socket.timeout\<close>, the result is empty output, the message
  \<open>Command execution timed out\<close> and no success flag, logged as Failed; when it
  raises any other exception, the same with that exception's message. Each outcome is
  logged exactly in the case described. Whatever the outcome, the loop goes on with the
  remaining commands, and over a whole list every command is executed exactly once, in
  order: nothing is retried.
\<close>

theorem executor_outcomes:
  "(exec_command e (length (trace st)) ssh c = Inr (Inr out, Inr []) \<longrightarrow>
      execute_command e ssh c st = ((out, [], True), emit (Exec ssh c) st)
      \<and> run_commands e ssh [c] (counts, log_file, st) =
          (counts\<lparr>total := total counts + 1, success := success counts + 1\<rparr>,
           log_file @ [CommandEntry c out [] Success], emit (Exec ssh c) st))
   \<and> (exec_command e (length (trace st)) ssh c = Inr (Inr out, Inr err) \<and> err \<noteq> [] \<longrightarrow>
      execute_command e ssh c st = ((out, err, True), emit (Exec ssh c) st)
      \<and> run_commands e ssh [c] (counts, log_file, st) =
          (counts\<lparr>total := total counts + 1, errors := errors counts + 1\<rparr>,
           log_file @ [CommandEntry c out err CompletedWithErrors], emit (Exec ssh c) st))
   \<and> (exec_command e (length (trace st)) ssh c = Inl SocketTimeout
        \<or> exec_command e (length (trace st)) ssh c = Inr (Inl SocketTimeout, r)
        \<or> exec_command e (length (trace st)) ssh c = Inr (Inr out, Inl SocketTimeout) \<longrightarrow>
      execute_command e ssh c st =
          (([], ''Command execution timed out'', False), emit (Exec ssh c) st)
      \<and> run_commands e ssh [c] (counts, log_file, st) =
          (counts\<lparr>total := total counts + 1, errors := errors counts + 1\<rparr>,
           log_file @ [CommandEntry c [] ''Command execution timed out'' Failed],
           emit (Exec ssh c) st))
   \<and> (exec_command e (length (trace st)) ssh c = Inl (OtherException msg)
        \<or> exec_command e (length (trace st)) ssh c = Inr (Inl (OtherException msg), r)
        \<or> exec_command e (length (trace st)) ssh c = Inr (Inr out, Inl (OtherException msg)) \<longrightarrow>
      execute_command e ssh c st = (([], msg, False), emit (Exec ssh c) st)
      \<and> run_commands e ssh [c] (counts, log_file, st) =
          (counts\<lparr>total := total counts + 1, errors := errors counts + 1\<rparr>,
           log_file @ [CommandEntry c [] msg Failed], emit (Exec ssh c) st))
   \<and> (\<exists>cnt o1 e1 st1. run_commands e ssh [c] (counts, log_file, st) =
          (cnt, log_file @ [CommandEntry c o1 e1 Success], st1))
       = (\<exists>o1. exec_command e (length (trace st)) ssh c = Inr (Inr o1, Inr []))
   \<and> (\<exists>cnt o1 e1 st1. run_commands e ssh [c] (counts, log_file, st) =
          (cnt, log_file @ [CommandEntry c o1 e1 CompletedWithErrors], st1))
       = (\<exists>o1 e1. exec_command e (length (trace st)) ssh c = Inr (Inr o1, Inr e1) \<and> e1 \<noteq> [])
   \<and> (\<exists>cnt o1 e1 st1. run_commands e ssh [c] (counts, log_file, st) =
          (cnt, log_file @ [CommandEntry c o1 e1 Failed], st1))
       = (\<exists>x. exec_command e (length (trace st)) ssh c = Inl x
              \<or> (\<exists>r1. exec_command e (length (trace st)) ssh c = Inr (Inl x, r1))
              \<or> (\<exists>o1. exec_command e (length (trace st)) ssh c = Inr (Inr o1, Inl x)))
   \<and> run_commands e ssh (c # rest) (counts, log_file, st) =
       run_commands e ssh rest (run_commands e ssh [c] (counts, log_file, st))
   \<and> trace (snd (snd (run_commands e ssh commands (counts, log_file, st)))) =
       trace st @ map (Exec ssh) commands"
proof -
  have a1: "exec_command e (length (trace st)) ssh c = Inr (Inr out, Inr []) \<longrightarrow>
      execute_command e ssh c st = ((out, [], True), emit (Exec ssh c) st)
      \<and> run_commands e ssh [c] (counts, log_file, st) =
          (counts\<lparr>total := total counts + 1, success := success counts + 1\<rparr>,
           log_file @ [CommandEntry c out [] Success], emit (Exec ssh c) st)"
    by (intro impI) (rule answer_success)
  have a2: "exec_command e (length (trace st)) ssh c = Inr (Inr out, Inr err) \<and> err \<noteq> [] \<longrightarrow>
      execute_command e ssh c st = ((out, err, True), emit (Exec ssh c) st)
      \<and> run_commands e ssh [c] (counts, log_file, st) =
          (counts\<lparr>total := total counts + 1, errors := errors counts + 1\<rparr>,
           log_file @ [CommandEntry c out err CompletedWithErrors], emit (Exec ssh c) st)"
    using answer_completed [of e st ssh c out err counts log_file] by (intro impI) simp
  have a3: "exec_command e (length (trace st)) ssh c = Inl SocketTimeout
        \<or> exec_command e (length (trace st)) ssh c = Inr (Inl SocketTimeout, r)
        \<or> exec_command e (length (trace st)) ssh c = Inr (Inr out, Inl SocketTimeout) \<longrightarrow>
      execute_command e ssh c st =
          (([], ''Command execution timed out'', False), emit (Exec ssh c) st)
      \<and> run_commands e ssh [c] (counts, log_file, st) =
          (counts\<lparr>total := total counts + 1, errors := errors counts + 1\<rparr>,
           log_file @ [CommandEntry c [] ''Command execution timed out'' Failed],
           emit (Exec ssh c) st)"
    by (intro impI) (rule answer_timeout)
  have a4: "exec_command e (length (trace st)) ssh c = Inl (OtherException msg)
        \<or> exec_command e (length (trace st)) ssh c = Inr (Inl (OtherException msg), r)
        \<or> exec_command e (length (trace st)) ssh c = Inr (Inr out, Inl (OtherException msg)) \<longrightarrow>
      execute_command e ssh c st = (([], msg, False), emit (Exec ssh c) st)
      \<and> run_commands e ssh [c] (counts, log_file, st) =
          (counts\<lparr>total := total counts + 1, errors := errors counts + 1\<rparr>,
           log_file @ [CommandEntry c [] msg Failed], emit (Exec ssh c) st)"
    by (intro impI) (rule answer_exception)
  have b1: "(\<exists>cnt o1 e1 st1. run_commands e ssh [c] (counts, log_file, st) =
          (cnt, log_file @ [CommandEntry c o1 e1 Success], st1))
       = (\<exists>o1. exec_command e (length (trace st)) ssh c = Inr (Inr o1, Inr []))"
    unfolding logged_status outcome_success ..
  have b2: "(\<exists>cnt o1 e1 st1. run_commands e ssh [c] (counts, log_file, st) =
          (cnt, log_file @ [CommandEntry c o1 e1 CompletedWithErrors], st1))
       = (\<exists>o1 e1. exec_command e (length (trace st)) ssh c = Inr (Inr o1, Inr e1) \<and> e1 \<noteq> [])"
    unfolding logged_status outcome_completed ..
  have b3: "(\<exists>cnt o1 e1 st1. run_commands e ssh [c] (counts, log_file, st) =
          (cnt, log_file @ [CommandEntry c o1 e1 Failed], st1))
       = (\<exists>x. exec_command e (length (trace st)) ssh c = Inl x
              \<or> (\<exists>r1. exec_command e (length (trace st)) ssh c = Inr (Inl x, r1))
              \<or> (\<exists>o1. exec_command e (length (trace st)) ssh c = Inr (Inr o1, Inl x)))"
    unfolding logged_status outcome_failed ..
  have c1: "run_commands e ssh (c # rest) (counts, log_file, st) =
       run_commands e ssh rest (run_commands e ssh [c] (counts, log_file, st))"
    by (rule run_commands_step)
  have c2: "trace (snd (snd (run_commands e ssh commands (counts, log_file, st)))) =
       trace st @ map (Exec ssh) commands"
    by (rule run_commands_trace)
  from a1 a2 a3 a4 b1 b2 b3 c1 c2 show ?thesis
    by (intro conjI)
qed

lemma answers:
  "exec_command all_ok t ssh c = Inr (Inr [], Inr [])"
  "exec_command complaining t ssh c = Inr (Inr ''partial'', Inr ''Invalid input'')"
  "exec_command timing_out t ssh c = Inl SocketTimeout"
  "exec_command refusing t ssh c = Inl (OtherException ''Channel closed'')"
  by (simp_all add: all_ok_def complaining_def timing_out_def refusing_def)

theorem executor_outcomes_witness:
  "exec_command all_ok 0 7 ''show version'' = Inr (Inr [], Inr [])
   \<and> run_commands all_ok 7 [''show version'']
        (\<lparr>total = 0, success = 0, errors = 0, connection_failed = False\<rparr>, [], empty_state) =
       (\<lparr>total = 1, success = 1, errors = 0, connection_failed = False\<rparr>,
        [CommandEntry ''show version'' [] [] Success],
        \<lparr>connections = [], next_session = 0, trace = [Exec 7 ''show version'']\<rparr>)
   \<and> exec_command complaining 0 7 ''show version'' = Inr (Inr ''partial'', Inr ''Invalid input'')
   \<and> ''Invalid input'' \<noteq> []
   \<and> run_commands complaining 7 [''show version'']
        (\<lparr>total = 0, success = 0, errors = 0, connection_failed = False\<rparr>, [], empty_state) =
       (\<lparr>total = 1, success = 0, errors = 1, connection_failed = False\<rparr>,
        [CommandEntry ''show version'' ''partial'' ''Invalid input'' CompletedWithErrors],
        \<lparr>connections = [], next_session = 0, trace = [Exec 7 ''show version'']\<rparr>)
   \<and> exec_command timing_out 0 7 ''show version'' = Inl SocketTimeout
   \<and> run_commands timing_out 7 [''show version'']
        (\<lparr>total = 0, success = 0, errors = 0, connection_failed = False\<rparr>, [], empty_state) =
       (\<lparr>total = 1, success = 0, errors = 1, connection_failed = False\<rparr>,
        [CommandEntry ''show version'' [] ''Command execution timed out'' Failed],
        \<lparr>connections = [], next_session = 0, trace = [Exec 7 ''show version'']\<rparr>)
   \<and> exec_command refusing 0 7 ''show version'' = Inl (OtherException ''Channel closed'')
   \<and> run_commands refusing 7 [''show version'']
        (\<lparr>total = 0, success = 0, errors = 0, connection_failed = False\<rparr>, [], empty_state) =
       (\<lparr>total = 1, success = 0, errors = 1, connection_failed = False\<rparr>,
        [CommandEntry ''show version'' [] ''Channel closed'' Failed],
        \<lparr>connections = [], next_session = 0, trace = [Exec 7 ''show version'']\<rparr>)"
proof -
  let ?z = "\<lparr>total = 0, success = 0, errors = 0, connection_failed = False\<rparr>"
  let ?c = "''show version''"
  let ?S = "\<lparr>connections = [], next_session = 0, trace = [Exec 7 ?c]\<rparr>"
  have em: "emit (Exec 7 ?c) empty_state = ?S"
    by (simp add: emit_def empty_state_def)
  have ne: "''Invalid input'' \<noteq> []"
    by simp
  note t1 = executor_outcomes [of all_ok empty_state 7 ?c "[]" ?z "[]", THEN conjunct1,
      THEN mp, OF answers(1), THEN conjunct2]
  note t2 = executor_outcomes [of complaining empty_state 7 ?c "''partial''" ?z "[]"
      "''Invalid input''", THEN conjunct2, THEN conjunct1, THEN mp,
      OF conjI [OF answers(2) ne], THEN conjunct2]
  note t3 = executor_outcomes [of timing_out empty_state 7 ?c _ ?z "[]",
      THEN conjunct2, THEN conjunct2, THEN conjunct1, THEN mp, OF disjI1,
      OF answers(3), THEN conjunct2]
  note t4 = executor_outcomes [of refusing empty_state 7 ?c _ ?z "[]" _ _ "''Channel closed''",
      THEN conjunct2, THEN conjunct2, THEN conjunct2, THEN conjunct1, THEN mp, OF disjI1,
      OF answers(4), THEN conjunct2]
  have w1: "run_commands all_ok 7 [?c] (?z, [], empty_state) =
       (\<lparr>total = 1, success = 1, errors = 0, connection_failed = False\<rparr>,
        [CommandEntry ?c [] [] Success], ?S)"
    unfolding t1 em by simp
  have w2: "run_commands complaining 7 [?c] (?z, [], empty_state) =
       (\<lparr>total = 1, success = 0, errors = 1, connection_failed = False\<rparr>,
        [CommandEntry ?c ''partial'' ''Invalid input'' CompletedWithErrors], ?S)"
    unfolding t2 em by simp
  have w3: "run_commands timing_out 7 [?c] (?z, [], empty_state) =
       (\<lparr>total = 1, success = 0, errors = 1, connection_failed = False\<rparr>,
        [CommandEntry ?c [] ''Command execution timed out'' Failed], ?S)"
    unfolding t3 em by simp
  have w4: "run_commands refusing 7 [?c] (?z, [], empty_state) =
       (\<lparr>total = 1, success = 0, errors = 1, connection_failed = False\<rparr>,
        [CommandEntry ?c [] ''Channel closed'' Failed], ?S)"
    unfolding t4 em by simp
  from w1 w2 w3 w4 ne answers [of 0 7 ?c] show ?thesis
    by (intro conjI)
qed

section \<open>The bulk run\<close>

lemma process_switch_failed:
  "acquire switch st = (Inl msg, st1) \<Longrightarrow>
   process_switch acquire e switch commands log_file st =
     (\<lparr>total = 0, success = 0, errors = 0, connection_failed = True\<rparr>,
      log_file @ [ConnectionError msg], st1)"
  by (simp add: process_switch_def)

lemma process_switch_connected:
  "acquire switch st = (Inr ssh, st1) \<Longrightarrow>
   \<exists>counts log1 st2. process_switch acquire e switch commands log_file st = (counts, log1, st2)
     \<and> total counts = length commands
     \<and> success counts + errors counts = length commands
     \<and> \<not> connection_failed counts
     \<and> logged_commands log1 = logged_commands log_file @ commands
     \<and> trace st2 = trace st1 @ map (Exec ssh) commands"
proof -
  assume a: "acquire switch st = (Inr ssh, st1)"
  from run_commands_effect [of e ssh commands
      "\<lparr>total = 0, success = 0, errors = 0, connection_failed = False\<rparr>"
      "log_file @ [Header switch]" st1]
  obtain counts1 log1 st2 where
    r: "run_commands e ssh commands
          (\<lparr>total = 0, success = 0, errors = 0, connection_failed = False\<rparr>,
           log_file @ [Header switch], st1) = (counts1, log1, st2)"
    and t: "total counts1 = length commands"
    and s: "success counts1 + errors counts1 = length commands"
    and f: "\<not> connection_failed counts1"
    and l: "logged_commands log1 = logged_commands (log_file @ [Header switch]) @ commands"
    and tr: "trace st2 = trace st1 @ map (Exec ssh) commands"
    by auto
  from a r have "process_switch acquire e switch commands log_file st =
      (counts1, log1 @ [Footer (total counts1) (success counts1) (errors counts1)], st2)"
    by (simp add: process_switch_def)
  with t s f l tr show ?thesis
    by (simp add: logged_commands_append)
qed

lemma process_switch_cases:
  "\<exists>counts log1 st2. process_switch acquire e switch commands log_file st = (counts, log1, st2)
     \<and> (if connection_failed counts then total counts = 0 else total counts = length commands)"
proof (cases "acquire switch st")
  case (Pair r st1)
  show ?thesis
  proof (cases r)
    case (Inl msg)
    with Pair process_switch_failed [of acquire switch st msg st1 e commands log_file]
    show ?thesis by simp
  next
    case (Inr ssh)
    with Pair process_switch_connected [of acquire switch st ssh st1 e commands log_file]
    show ?thesis by auto
  qed
qed

lemma process_switches_totals:
  "\<exists>final logs1 st3.
     process_switches acquire e commands switches (overall, logs, st) = (final, logs1, st3)
     \<and> processed final = processed overall + length switches
     \<and> map fst logs1 = map fst logs @ switches
     \<and> total_commands final + length commands * connection_failures final =
         total_commands overall + length commands * connection_failures overall
         + length commands * length switches"
proof (induction switches arbitrary: overall logs st)
  case Nil
  then show ?case by simp
next
  case (Cons K rest)
  obtain counts log1 st2 where
    p: "process_switch acquire e K commands [] st = (counts, log1, st2)"
    and c: "if connection_failed counts then total counts = 0 else total counts = length commands"
    using process_switch_cases [of acquire e K commands "[]" st] by blast
  let ?o4 = "overall\<lparr>processed := processed overall + 1,
              total_commands := total_commands overall + total counts,
              total_success := total_success overall + success counts,
              total_errors := total_errors overall + errors counts\<rparr>"
  let ?o5 = "if connection_failed counts
             then ?o4\<lparr>connection_failures := connection_failures ?o4 + 1\<rparr> else ?o4"
  from p have step: "process_switches acquire e commands (K # rest) (overall, logs, st) =
      process_switches acquire e commands rest (?o5, logs @ [(K, log1)], st2)"
    by (simp add: Let_def)
  from Cons [of ?o5 "logs @ [(K, log1)]" st2] c show ?case
    unfolding step by (auto simp: algebra_simps split: if_splits)
qed

lemma process_switches_step:
  "(acquire K st = (Inl msg, st1) \<longrightarrow>
      process_switches acquire e commands (K # rest) (overall, logs, st) =
      process_switches acquire e commands rest
        (overall\<lparr>processed := processed overall + 1,
                 connection_failures := connection_failures overall + 1\<rparr>,
         logs @ [(K, [ConnectionError msg])], st1))
   \<and> (acquire K st = (Inr ssh, st1) \<longrightarrow>
      (\<exists>overall1 log1 st2.
         process_switches acquire e commands (K # rest) (overall, logs, st) =
         process_switches acquire e commands rest (overall1, logs @ [(K, log1)], st2)
         \<and> processed overall1 = processed overall + 1
         \<and> connection_failures overall1 = connection_failures overall
         \<and> total_commands overall1 = total_commands overall + length commands
         \<and> logged_commands log1 = commands
         \<and> trace st2 = trace st1 @ map (Exec ssh) commands))
   \<and> (\<exists>final logs1 st3.
         run_bulk_commands acquire e switches commands st = (final, logs1, st3)
         \<and> processed final = length switches
         \<and> map fst logs1 = switches
         \<and> total_commands final + length commands * connection_failures final =
             length commands * length switches)"
proof (intro conjI impI)
  assume "acquire K st = (Inl msg, st1)"
  from process_switch_failed [of acquire K st msg st1 e commands "[]"] this
  have "process_switch acquire e K commands [] st =
     (\<lparr>total = 0, success = 0, errors = 0, connection_failed = True\<rparr>,
      [ConnectionError msg], st1)"
    by simp
  then
  show "process_switches acquire e commands (K # rest) (overall, logs, st) =
      process_switches acquire e commands rest
        (overall\<lparr>processed := processed overall + 1,
                 connection_failures := connection_failures overall + 1\<rparr>,
         logs @ [(K, [ConnectionError msg])], st1)"
    by (simp add: Let_def)
next
  assume "acquire K st = (Inr ssh, st1)"
  from process_switch_connected [of acquire K st ssh st1 e commands "[]"] this
  obtain counts log1 st2 where
    p: "process_switch acquire e K commands [] st = (counts, log1, st2)"
    and t: "total counts = length commands"
    and f: "\<not> connection_failed counts"
    and l: "logged_commands log1 = commands"
    and tr: "trace st2 = trace st1 @ map (Exec ssh) commands"
    by auto
  let ?o = "overall\<lparr>processed := processed overall + 1,
              total_commands := total_commands overall + total counts,
              total_success := total_success overall + success counts,
              total_errors := total_errors overall + errors counts\<rparr>"
  from p f have "process_switches acquire e commands (K # rest) (overall, logs, st) =
         process_switches acquire e commands rest (?o, logs @ [(K, log1)], st2)"
    by (simp add: Let_def)
  with t l tr show "\<exists>overall1 log1 st2.
         process_switches acquire e commands (K # rest) (overall, logs, st) =
         process_switches acquire e commands rest (overall1, logs @ [(K, log1)], st2)
         \<and> processed overall1 = processed overall + 1
         \<and> connection_failures overall1 = connection_failures overall
         \<and> total_commands overall1 = total_commands overall + length commands
         \<and> logged_commands log1 = commands
         \<and> trace st2 = trace st1 @ map (Exec ssh) commands"
    by (intro exI [of _ ?o] exI [of _ log1] exI [of _ st2]) simp
next
  from process_switches_totals [of acquire e commands switches
      "\<lparr>total_switches = length switches, processed = 0, connection_failures = 0,
        total_commands = 0, total_success = 0, total_errors = 0\<rparr>" "[]" st]
  show "\<exists>final logs1 st3.
         run_bulk_commands acquire e switches commands st = (final, logs1, st3)
         \<and> processed final = length switches
         \<and> map fst logs1 = switches
         \<and> total_commands final + length commands * connection_failures final =
             length commands * length switches"
    unfolding run_bulk_commands_def by auto
qed

lemma process_switches_Cons:
  "process_switch acquire e K commands [] st = (counts, log1, st2) \<Longrightarrow>
   process_switches acquire e commands (K # xs) (overall, logs, st) =
     process_switches acquire e commands xs
       (count_switch counts overall, logs @ [(K, log1)], st2)"
  by (simp add: Let_def count_switch_def)

lemma count_switch_total_switches:
  "count_switch c (overall\<lparr>total_switches := m\<rparr>) =
     (count_switch c overall)\<lparr>total_switches := m\<rparr>"
  by (simp add: count_switch_def Let_def)

lemma process_switches_append:
  "process_switches acquire e commands (xs @ ys) acc =
     process_switches acquire e commands ys (process_switches acquire e commands xs acc)"
proof (induction xs arbitrary: acc)
  case Nil
  then show ?case by simp
next
  case (Cons K xs)
  obtain overall logs st where acc: "acc = (overall, logs, st)" by (cases acc)
  obtain counts log1 st1 where
    p: "process_switch acquire e K commands [] st = (counts, log1, st1)"
    by (cases "process_switch acquire e K commands [] st")
  show ?case
    unfolding acc append_Cons process_switches_Cons [OF p] by (rule Cons.IH)
qed

lemma process_switches_total_switches:
  "process_switches acquire e commands xs (overall, logs, st) = (overall1, logs1, st1) \<Longrightarrow>
   process_switches acquire e commands xs (overall\<lparr>total_switches := m\<rparr>, logs, st) =
     (overall1\<lparr>total_switches := m\<rparr>, logs1, st1)"
proof (induction xs arbitrary: overall logs st)
  case Nil
  then show ?case by simp
next
  case (Cons K xs)
  obtain counts log1 st2 where
    p: "process_switch acquire e K commands [] st = (counts, log1, st2)"
    by (cases "process_switch acquire e K commands [] st")
  from Cons.prems have
    "process_switches acquire e commands xs
       (count_switch counts overall, logs @ [(K, log1)], st2) = (overall1, logs1, st1)"
    unfolding process_switches_Cons [OF p] .
  from Cons.IH [OF this] show ?case
    unfolding process_switches_Cons [OF p] count_switch_total_switches .
qed

lemma process_switches_total_switches_kept:
  "total_switches (fst (process_switches acquire e commands xs (overall, logs, st))) =
     total_switches overall"
proof (induction xs arbitrary: overall logs st)
  case Nil
  then show ?case by simp
next
  case (Cons K xs)
  obtain counts log1 st2 where
    p: "process_switch acquire e K commands [] st = (counts, log1, st2)"
    by (cases "process_switch acquire e K commands [] st")
  have "total_switches (count_switch counts overall) = total_switches overall"
    by (simp add: count_switch_def Let_def)
  with Cons.IH [of "count_switch counts overall" "logs @ [(K, log1)]" st2] show ?case
    unfolding process_switches_Cons [OF p] by simp
qed

lemma run_bulk_commands_snoc:
  "run_bulk_commands acquire e pre commands st = (overall1, logs1, st1) \<Longrightarrow>
   run_bulk_commands acquire e (pre @ [K]) commands st =
     process_switches acquire e commands [K]
       (overall1\<lparr>total_switches := length pre + 1\<rparr>, logs1, st1)"
proof -
  let ?init = "\<lparr>total_switches = length pre, processed = 0, connection_failures = 0,
      total_commands = 0, total_success = 0, total_errors = 0\<rparr>"
  assume "run_bulk_commands acquire e pre commands st = (overall1, logs1, st1)"
  then have "process_switches acquire e commands pre (?init, [], st) = (overall1, logs1, st1)"
    by (simp add: run_bulk_commands_def)
  from process_switches_total_switches [OF this, of "length pre + 1"]
  have "process_switches acquire e commands pre
      (\<lparr>total_switches = length pre + 1, processed = 0, connection_failures = 0,
        total_commands = 0, total_success = 0, total_errors = 0\<rparr>, [], st) =
      (overall1\<lparr>total_switches := length pre + 1\<rparr>, logs1, st1)"
    by simp
  then show ?thesis
    by (simp add: run_bulk_commands_def process_switches_append del: process_switches.simps)
qed

text \<open>
  Claim C2. A bulk run over no switch contacts nothing and counts nothing. Let a run
  over the switches \<open>pre\<close> end with the totals \<open>overall1\<close>, the logs \<open>logs1\<close> and the
  state \<open>st1\<close>, and let \<open>K\<close> be the next switch of the list.
  When acquiring the connection to \<open>K\<close> in \<open>st1\<close> fails, the run over \<open>pre\<close> and
  \<open>K\<close> ends in the state the failed acquire left (no command of the list is
  executed), with exactly one more connection failure, one more switch processed, the
  command totals unchanged, and a log for \<open>K\<close> that holds only the connection error.
  When the acquire succeeds, the run executes all \<open>N\<close> commands on that session after
  it, in order and each once, adds \<open>N\<close> to the command total and no connection
  failure, and logs the \<open>N\<close> commands for \<open>K\<close>. This holds after any \<open>pre\<close>, so
  also for the switches that follow a failed one. Over the whole run every switch is
  processed and has its log, and the commands counted are \<open>N\<close> for every switch that
  is not counted as a connection failure.
\<close>

theorem bulk_run_connection_failure:
  "run_bulk_commands acquire e [] commands st =
     (\<lparr>total_switches = 0, processed = 0, connection_failures = 0, total_commands = 0,
       total_success = 0, total_errors = 0\<rparr>, [], st)
   \<and> (run_bulk_commands acquire e pre commands st = (overall1, logs1, st1)
        \<and> acquire K st1 = (Inl msg, st2) \<longrightarrow>
      run_bulk_commands acquire e (pre @ [K]) commands st =
        (overall1\<lparr>total_switches := length pre + 1,
                  processed := processed overall1 + 1,
                  connection_failures := connection_failures overall1 + 1\<rparr>,
         logs1 @ [(K, [ConnectionError msg])], st2))
   \<and> (run_bulk_commands acquire e pre commands st = (overall1, logs1, st1)
        \<and> acquire K st1 = (Inr ssh, st2) \<longrightarrow>
      (\<exists>overall2 log2 st3.
         run_bulk_commands acquire e (pre @ [K]) commands st =
           (overall2, logs1 @ [(K, log2)], st3)
         \<and> total_switches overall2 = length pre + 1
         \<and> processed overall2 = processed overall1 + 1
         \<and> connection_failures overall2 = connection_failures overall1
         \<and> total_commands overall2 = total_commands overall1 + length commands
         \<and> logged_commands log2 = commands
         \<and> trace st3 = trace st2 @ map (Exec ssh) commands))
   \<and> (\<exists>final logs3 st4.
         run_bulk_commands acquire e switches commands st = (final, logs3, st4)
         \<and> total_switches final = length switches
         \<and> processed final = length switches
         \<and> map fst logs3 = switches
         \<and> total_commands final + length commands * connection_failures final =
             length commands * length switches)"
proof (intro conjI impI)
  show "run_bulk_commands acquire e [] commands st =
     (\<lparr>total_switches = 0, processed = 0, connection_failures = 0, total_commands = 0,
       total_success = 0, total_errors = 0\<rparr>, [], st)"
    by (simp add: run_bulk_commands_def)
next
  assume a: "run_bulk_commands acquire e pre commands st = (overall1, logs1, st1)
        \<and> acquire K st1 = (Inl msg, st2)"
  then have f: "acquire K st1 = (Inl msg, st2)" ..
  from a have r: "run_bulk_commands acquire e (pre @ [K]) commands st =
     process_switches acquire e commands [K]
       (overall1\<lparr>total_switches := length pre + 1\<rparr>, logs1, st1)"
    by (simp add: run_bulk_commands_snoc)
  from process_switches_step [of acquire K st1 msg st2 e commands "[]"
      "overall1\<lparr>total_switches := length pre + 1\<rparr>" logs1] f
  have "process_switches acquire e commands [K]
       (overall1\<lparr>total_switches := length pre + 1\<rparr>, logs1, st1) =
     process_switches acquire e commands []
        (overall1\<lparr>total_switches := length pre + 1\<rparr>
           \<lparr>processed := processed (overall1\<lparr>total_switches := length pre + 1\<rparr>) + 1,
            connection_failures :=
              connection_failures (overall1\<lparr>total_switches := length pre + 1\<rparr>) + 1\<rparr>,
         logs1 @ [(K, [ConnectionError msg])], st2)"
    by blast
  with r show "run_bulk_commands acquire e (pre @ [K]) commands st =
        (overall1\<lparr>total_switches := length pre + 1,
                  processed := processed overall1 + 1,
                  connection_failures := connection_failures overall1 + 1\<rparr>,
         logs1 @ [(K, [ConnectionError msg])], st2)"
    by simp
next
  assume a: "run_bulk_commands acquire e pre commands st = (overall1, logs1, st1)
        \<and> acquire K st1 = (Inr ssh, st2)"
  then have f: "acquire K st1 = (Inr ssh, st2)" ..
  from a have r: "run_bulk_commands acquire e (pre @ [K]) commands st =
     process_switches acquire e commands [K]
       (overall1\<lparr>total_switches := length pre + 1\<rparr>, logs1, st1)"
    by (simp add: run_bulk_commands_snoc)
  from process_switches_step [of acquire K st1 _ st2 e commands "[]"
      "overall1\<lparr>total_switches := length pre + 1\<rparr>" logs1 ssh] f
  obtain overall2 log2 st3 where
    s: "process_switches acquire e commands [K]
          (overall1\<lparr>total_switches := length pre + 1\<rparr>, logs1, st1) =
        process_switches acquire e commands [] (overall2, logs1 @ [(K, log2)], st3)"
    and p: "processed overall2 = processed (overall1\<lparr>total_switches := length pre + 1\<rparr>) + 1"
    and c: "connection_failures overall2 =
        connection_failures (overall1\<lparr>total_switches := length pre + 1\<rparr>)"
    and t: "total_commands overall2 =
        total_commands (overall1\<lparr>total_switches := length pre + 1\<rparr>) + length commands"
    and l: "logged_commands log2 = commands"
    and tr: "trace st3 = trace st2 @ map (Exec ssh) commands"
    by blast
  from process_switches_total_switches_kept [of acquire e commands "[K]"
      "overall1\<lparr>total_switches := length pre + 1\<rparr>" logs1 st1] s
  have ts: "total_switches overall2 = length pre + 1"
    by simp
  from r s p c t l tr ts show "\<exists>overall2 log2 st3.
         run_bulk_commands acquire e (pre @ [K]) commands st =
           (overall2, logs1 @ [(K, log2)], st3)
         \<and> total_switches overall2 = length pre + 1
         \<and> processed overall2 = processed overall1 + 1
         \<and> connection_failures overall2 = connection_failures overall1
         \<and> total_commands overall2 = total_commands overall1 + length commands
         \<and> logged_commands log2 = commands
         \<and> trace st3 = trace st2 @ map (Exec ssh) commands"
    by (intro exI [of _ overall2] exI [of _ log2] exI [of _ st3]) simp
next
  from process_switches_totals [of acquire e commands switches
      "\<lparr>total_switches = length switches, processed = 0, connection_failures = 0,
        total_commands = 0, total_success = 0, total_errors = 0\<rparr>" "[]" st]
    process_switches_total_switches_kept [of acquire e commands switches
      "\<lparr>total_switches = length switches, processed = 0, connection_failures = 0,
        total_commands = 0, total_success = 0, total_errors = 0\<rparr>" "[]" st]
  show "\<exists>final logs3 st4.
         run_bulk_commands acquire e switches commands st = (final, logs3, st4)
         \<and> total_switches final = length switches
         \<and> processed final = length switches
         \<and> map fst logs3 = switches
         \<and> total_commands final + length commands * connection_failures final =
             length commands * length switches"
    unfolding run_bulk_commands_def by auto
qed

lemma bad_unreachable:
  "get_connection one_down ''bad'' empty_state =
     (Inl ''timed out'', \<lparr>connections = [], next_session = 1, trace = [Connect 0 ''bad'']\<rparr>)"
  by (simp add: one_down_def world_defs get_connection_def create_connection_def
      ssh_connect_def new_client_def emit_def)

lemma sw1_reachable:
  "get_connection one_down ''sw1''
     \<lparr>connections = [], next_session = 1, trace = [Connect 0 ''bad'']\<rparr> =
     (Inr 1, \<lparr>connections = [(''sw1'', 1)], next_session = 2,
              trace = [Connect 0 ''bad'', Connect 1 ''sw1'']\<rparr>)"
  by (simp add: one_down_def world_defs get_connection_def create_connection_def
      ssh_connect_def new_client_def emit_def)

theorem bulk_run_connection_failure_witness:
  "run_bulk_commands (get_connection one_down) one_down [] [''show version'', ''show fdb'']
       empty_state =
     (\<lparr>total_switches = 0, processed = 0, connection_failures = 0, total_commands = 0,
       total_success = 0, total_errors = 0\<rparr>, [], empty_state)
   \<and> get_connection one_down ''bad'' empty_state =
     (Inl ''timed out'', \<lparr>connections = [], next_session = 1, trace = [Connect 0 ''bad'']\<rparr>)
   \<and> run_bulk_commands (get_connection one_down) one_down [''bad'']
       [''show version'', ''show fdb''] empty_state =
     (\<lparr>total_switches = 1, processed = 1, connection_failures = 1, total_commands = 0,
       total_success = 0, total_errors = 0\<rparr>, [(''bad'', [ConnectionError ''timed out''])],
      \<lparr>connections = [], next_session = 1, trace = [Connect 0 ''bad'']\<rparr>)
   \<and> get_connection one_down ''sw1''
        \<lparr>connections = [], next_session = 1, trace = [Connect 0 ''bad'']\<rparr> =
      (Inr 1, \<lparr>connections = [(''sw1'', 1)], next_session = 2,
               trace = [Connect 0 ''bad'', Connect 1 ''sw1'']\<rparr>)
   \<and> (\<exists>overall2 log2 st3.
        run_bulk_commands (get_connection one_down) one_down [''bad'', ''sw1'']
          [''show version'', ''show fdb''] empty_state =
          (overall2, [(''bad'', [ConnectionError ''timed out'']), (''sw1'', log2)], st3)
        \<and> total_switches overall2 = 2
        \<and> processed overall2 = 2
        \<and> connection_failures overall2 = 1
        \<and> total_commands overall2 = 2
        \<and> logged_commands log2 = [''show version'', ''show fdb'']
        \<and> trace st3 = [Connect 0 ''bad'', Connect 1 ''sw1'', Exec 1 ''show version'',
                        Exec 1 ''show fdb''])"
proof -
  let ?G = "get_connection one_down"
  let ?cmds = "[''show version'', ''show fdb'']"
  let ?z = "\<lparr>total_switches = 0, processed = 0, connection_failures = 0, total_commands = 0,
       total_success = 0, total_errors = 0\<rparr>"
  let ?o1 = "\<lparr>total_switches = 1, processed = 1, connection_failures = 1, total_commands = 0,
       total_success = 0, total_errors = 0\<rparr>"
  let ?l1 = "[(''bad'', [ConnectionError ''timed out''])]"
  let ?SB = "\<lparr>connections = [], next_session = 1, trace = [Connect 0 ''bad'']\<rparr>"
  let ?SC = "\<lparr>connections = [(''sw1'', 1)], next_session = 2,
               trace = [Connect 0 ''bad'', Connect 1 ''sw1'']\<rparr>"
  note th0 = bulk_run_connection_failure
      [of ?G one_down ?cmds empty_state "[]" ?z "[]" empty_state "''bad''" "''timed out''" ?SB]
  note r0 = th0 [THEN conjunct1]
  note r1' = th0 [THEN conjunct2, THEN conjunct1, THEN mp, OF conjI [OF r0 bad_unreachable]]
  have r1: "run_bulk_commands ?G one_down [''bad''] ?cmds empty_state = (?o1, ?l1, ?SB)"
    using r1' by simp
  note th1 = bulk_run_connection_failure
      [of ?G one_down ?cmds empty_state "[''bad'']" ?o1 ?l1 ?SB "''sw1''" _ ?SC 1]
  note r2' = th1 [THEN conjunct2, THEN conjunct2, THEN conjunct1, THEN mp,
      OF conjI [OF r1 sw1_reachable]]
  then obtain overall2 log2 st3 where
    s: "run_bulk_commands ?G one_down ([''bad''] @ [''sw1'']) ?cmds empty_state =
          (overall2, ?l1 @ [(''sw1'', log2)], st3)"
    and ts: "total_switches overall2 = length [''bad''] + 1"
    and p: "processed overall2 = processed ?o1 + 1"
    and f: "connection_failures overall2 = connection_failures ?o1"
    and t: "total_commands overall2 = total_commands ?o1 + length ?cmds"
    and l: "logged_commands log2 = ?cmds"
    and tr: "trace st3 = trace ?SC @ map (Exec 1) ?cmds"
    by blast
  have r2: "\<exists>overall2 log2 st3.
        run_bulk_commands ?G one_down [''bad'', ''sw1''] ?cmds empty_state =
          (overall2, [(''bad'', [ConnectionError ''timed out'']), (''sw1'', log2)], st3)
        \<and> total_switches overall2 = 2
        \<and> processed overall2 = 2
        \<and> connection_failures overall2 = 1
        \<and> total_commands overall2 = 2
        \<and> logged_commands log2 = ?cmds
        \<and> trace st3 = [Connect 0 ''bad'', Connect 1 ''sw1'', Exec 1 ''show version'',
                        Exec 1 ''show fdb'']"
  proof (intro exI conjI)
    from s show "run_bulk_commands ?G one_down [''bad'', ''sw1''] ?cmds empty_state =
          (overall2, [(''bad'', [ConnectionError ''timed out'']), (''sw1'', log2)], st3)"
      by simp
    from ts show "total_switches overall2 = 2" by simp
    from p show "processed overall2 = 2" by simp
    from f show "connection_failures overall2 = 1" by simp
    from t show "total_commands overall2 = 2" by simp
    from l show "logged_commands log2 = ?cmds" .
    from tr show "trace st3 = [Connect 0 ''bad'', Connect 1 ''sw1'', Exec 1 ''show version'',
                        Exec 1 ''show fdb'']" by simp
  qed
  from r0 bad_unreachable r1 sw1_reachable r2 show ?thesis
    by (intro conjI)
qed

section \<open>The forwarding-table cache\<close>

lemma fetch_fdb_cached:
  "fetch_fdb e ssh switch_ip fdb_cache now st = (Inr out, cache1, st1) \<Longrightarrow>
   map_of cache1 switch_ip = Some \<lparr>data = out, timestamp = now\<rparr>"
  by (auto simp: fetch_fdb_def update_conv' split: sum.splits prod.splits)

lemma fetch_fdb_returned:
  "exec_command e (length (trace st)) ssh ''show fdb'' = Inr (Inr fresh, err) \<Longrightarrow>
   fetch_fdb e ssh switch_ip fdb_cache now st =
     (Inr fresh, AList.update switch_ip \<lparr>data = fresh, timestamp = now\<rparr> fdb_cache,
      emit (Exec ssh ''show fdb'') st)"
  by (simp add: fetch_fdb_def)

lemma get_fdb_info_fresh:
  "map_of fdb_cache switch_ip = Some entry \<Longrightarrow> now - timestamp entry < cache_duration \<Longrightarrow>
   get_fdb_info e ssh switch_ip fdb_cache False now st = (Inr (data entry), fdb_cache, st)"
  by (simp add: get_fdb_info_def)

lemma get_fdb_info_declined:
  "map_of fdb_cache switch_ip = Some entry \<Longrightarrow> cache_duration \<le> now - timestamp entry \<Longrightarrow>
   lower (user_input e (length (trace st))) \<noteq> ''y'' \<Longrightarrow>
   get_fdb_info e ssh switch_ip fdb_cache False now st =
     (Inr (data entry), fdb_cache, emit (Input switch_ip) st)"
  by (simp add: get_fdb_info_def)

lemma get_fdb_info_accepted:
  "map_of fdb_cache switch_ip = Some entry \<Longrightarrow> cache_duration \<le> now - timestamp entry \<Longrightarrow>
   lower (user_input e (length (trace st))) = ''y'' \<Longrightarrow>
   get_fdb_info e ssh switch_ip fdb_cache False now st =
     fetch_fdb e ssh switch_ip fdb_cache now (emit (Input switch_ip) st)"
  by (simp add: get_fdb_info_def)

lemma get_fdb_info_forced:
  "get_fdb_info e ssh switch_ip fdb_cache True now st =
     fetch_fdb e ssh switch_ip fdb_cache now st"
  by (simp add: get_fdb_info_def split: option.splits)

lemma get_fdb_info_fetched:
  assumes g: "get_fdb_info e ssh switch_ip fdb_cache force now st = (Inr out, cache1, st1)"
    and x: "Exec ssh ''show fdb'' \<in> set (drop (length (trace st)) (trace st1))"
  shows "map_of cache1 switch_ip = Some \<lparr>data = out, timestamp = now\<rparr>"
proof (cases "map_of fdb_cache switch_ip")
  case None
  with g show ?thesis by (simp add: get_fdb_info_def fetch_fdb_cached)
next
  case (Some entry)
  show ?thesis
  proof (cases force)
    case True
    with g show ?thesis by (simp add: get_fdb_info_forced fetch_fdb_cached)
  next
    case False
    show ?thesis
    proof (cases "now - timestamp entry < cache_duration")
      case True
      with g x Some False show ?thesis by (simp add: get_fdb_info_def)
    next
      case old: False
      show ?thesis
      proof (cases "lower (user_input e (length (trace st))) = ''y''")
        case True
        with g Some False old show ?thesis
          by (simp add: get_fdb_info_def fetch_fdb_cached)
      next
        case no: False
        with g x Some False old show ?thesis
          by (auto simp: get_fdb_info_def emit_def)
      qed
    qed
  qed
qed

text \<open>
  Claim C4, as the code has it. Time is in seconds and the cache duration is 900; the
  age of an entry counts from the fetch that stored it, not from the last lookup.
  A lookup that fetched from the switch at time \<open>t1\<close> and returned \<open>out1\<close> is
  followed, at any time \<open>t2\<close> less than 900 seconds later and without
  \<^verbatim>\<open>force_refresh\<close>, by a lookup that returns \<open>out1\<close> and changes neither the
  cache nor the trace: no fetch and no prompt. More generally an entry younger than 900
  seconds is returned so. When the entry is 900 seconds old or older the operator is
  prompted; an answer other than y (in either case) returns the stale data, with the
  cache unchanged and nothing fetched, and the answer y fetches. With
  \<^verbatim>\<open>force_refresh\<close> the lookup is the fetch whatever the cache holds, with no
  prompt; a fetch that returns stores and returns the fresh output.
\<close>

theorem fdb_cache_ttl:
  "(get_fdb_info e1 ssh1 switch_ip fdb_cache force1 t1 st = (Inr out1, cache1, st1)
      \<and> Exec ssh1 ''show fdb'' \<in> set (drop (length (trace st)) (trace st1))
      \<and> t2 - t1 < cache_duration \<longrightarrow>
    get_fdb_info e2 ssh2 switch_ip cache1 False t2 st1 = (Inr out1, cache1, st1))
   \<and> (map_of fdb_cache switch_ip = Some entry \<and> now - timestamp entry < cache_duration \<longrightarrow>
    get_fdb_info e ssh switch_ip fdb_cache False now st = (Inr (data entry), fdb_cache, st))
   \<and> (map_of fdb_cache switch_ip = Some entry \<and> cache_duration \<le> now - timestamp entry
        \<and> lower (user_input e (length (trace st))) \<noteq> ''y'' \<longrightarrow>
    get_fdb_info e ssh switch_ip fdb_cache False now st =
      (Inr (data entry), fdb_cache, emit (Input switch_ip) st))
   \<and> (map_of fdb_cache switch_ip = Some entry \<and> cache_duration \<le> now - timestamp entry
        \<and> lower (user_input e (length (trace st))) = ''y'' \<longrightarrow>
    get_fdb_info e ssh switch_ip fdb_cache False now st =
      fetch_fdb e ssh switch_ip fdb_cache now (emit (Input switch_ip) st))
   \<and> get_fdb_info e ssh switch_ip fdb_cache True now st =
      fetch_fdb e ssh switch_ip fdb_cache now st
   \<and> (exec_command e (length (trace st)) ssh ''show fdb'' = Inr (Inr fresh, err) \<longrightarrow>
    fetch_fdb e ssh switch_ip fdb_cache now st =
      (Inr fresh, AList.update switch_ip \<lparr>data = fresh, timestamp = now\<rparr> fdb_cache,
       emit (Exec ssh ''show fdb'') st))
   \<and> cache_duration = 900"
proof (intro conjI impI)
  assume a: "get_fdb_info e1 ssh1 switch_ip fdb_cache force1 t1 st = (Inr out1, cache1, st1)
      \<and> Exec ssh1 ''show fdb'' \<in> set (drop (length (trace st)) (trace st1))
      \<and> t2 - t1 < cache_duration"
  then have "map_of cache1 switch_ip = Some \<lparr>data = out1, timestamp = t1\<rparr>"
    using get_fdb_info_fetched by blast
  from get_fdb_info_fresh [OF this, of t2 e2 ssh2 st1] a
  show "get_fdb_info e2 ssh2 switch_ip cache1 False t2 st1 = (Inr out1, cache1, st1)"
    by simp
qed (simp_all add: get_fdb_info_fresh get_fdb_info_declined get_fdb_info_accepted
      get_fdb_info_forced fetch_fdb_returned cache_duration_def)

lemma lower_N: "lower ''N'' \<noteq> ''y''"
  by code_simp

lemma lower_Y: "lower ''Y'' = ''y''"
  by code_simp

lemma first_lookup:
  "get_fdb_info fdb_switch 0 ''10.10.1.1'' [] False 1000 empty_state =
     (Inr ''00:11:22:33:44:55 7'',
      [(''10.10.1.1'', \<lparr>data = ''00:11:22:33:44:55 7'', timestamp = 1000\<rparr>)],
      \<lparr>connections = [], next_session = 0, trace = [Exec 0 ''show fdb'']\<rparr>)"
  by (simp add: get_fdb_info_def fetch_fdb_def fdb_switch_def world_defs emit_def)

theorem fdb_cache_ttl_witness:
  "get_fdb_info fdb_switch 0 ''10.10.1.1'' [] False 1000 empty_state =
     (Inr ''00:11:22:33:44:55 7'',
      [(''10.10.1.1'', \<lparr>data = ''00:11:22:33:44:55 7'', timestamp = 1000\<rparr>)],
      \<lparr>connections = [], next_session = 0, trace = [Exec 0 ''show fdb'']\<rparr>)
   \<and> Exec 0 ''show fdb'' \<in> set (drop (length (trace empty_state)) [Exec 0 ''show fdb''])
   \<and> (1500::real) - 1000 < cache_duration
   \<and> get_fdb_info fdb_switch 0 ''10.10.1.1''
        [(''10.10.1.1'', \<lparr>data = ''00:11:22:33:44:55 7'', timestamp = 1000\<rparr>)] False 1500
        \<lparr>connections = [], next_session = 0, trace = [Exec 0 ''show fdb'']\<rparr> =
     (Inr ''00:11:22:33:44:55 7'',
      [(''10.10.1.1'', \<lparr>data = ''00:11:22:33:44:55 7'', timestamp = 1000\<rparr>)],
      \<lparr>connections = [], next_session = 0, trace = [Exec 0 ''show fdb'']\<rparr>)
   \<and> cache_duration \<le> (2000::real) - 1000
   \<and> lower (user_input fdb_switch 1) \<noteq> ''y''
   \<and> get_fdb_info fdb_switch 0 ''10.10.1.1''
        [(''10.10.1.1'', \<lparr>data = ''00:11:22:33:44:55 7'', timestamp = 1000\<rparr>)] False 2000
        \<lparr>connections = [], next_session = 0, trace = [Exec 0 ''show fdb'']\<rparr> =
     (Inr ''00:11:22:33:44:55 7'',
      [(''10.10.1.1'', \<lparr>data = ''00:11:22:33:44:55 7'', timestamp = 1000\<rparr>)],
      \<lparr>connections = [], next_session = 0, trace = [Exec 0 ''show fdb'', Input ''10.10.1.1'']\<rparr>)
   \<and> lower (user_input (fdb_switch\<lparr>user_input := (\<lambda>t. ''Y'')\<rparr>) 1) = ''y''
   \<and> get_fdb_info (fdb_switch\<lparr>user_input := (\<lambda>t. ''Y'')\<rparr>) 0 ''10.10.1.1''
        [(''10.10.1.1'', \<lparr>data = ''00:11:22:33:44:55 7'', timestamp = 1000\<rparr>)] False 2000
        \<lparr>connections = [], next_session = 0, trace = [Exec 0 ''show fdb'']\<rparr> =
     (Inr ''00:11:22:33:44:55 7'',
      [(''10.10.1.1'', \<lparr>data = ''00:11:22:33:44:55 7'', timestamp = 2000\<rparr>)],
      \<lparr>connections = [], next_session = 0,
       trace = [Exec 0 ''show fdb'', Input ''10.10.1.1'', Exec 0 ''show fdb'']\<rparr>)"
proof -
  let ?ip = "''10.10.1.1''"
  let ?out = "''00:11:22:33:44:55 7''"
  let ?C1 = "[(?ip, \<lparr>data = ?out, timestamp = 1000\<rparr>)]"
  let ?S1 = "\<lparr>connections = [], next_session = 0, trace = [Exec 0 ''show fdb'']\<rparr>"
  let ?yes = "fdb_switch\<lparr>user_input := (\<lambda>t. ''Y'')\<rparr>"
  note a = first_lookup
  have b: "Exec 0 ''show fdb'' \<in> set (drop (length (trace empty_state)) [Exec 0 ''show fdb''])"
    by (simp add: empty_state_def)
  have c: "(1500::real) - 1000 < cache_duration"
    by (simp add: cache_duration_def)
  have d: "get_fdb_info fdb_switch 0 ?ip ?C1 False 1500 ?S1 = (Inr ?out, ?C1, ?S1)"
    using fdb_cache_ttl [of fdb_switch 0 ?ip "[]" False 1000 empty_state ?out ?C1 ?S1 1500
        fdb_switch 0] a b c
    by simp
  have e: "cache_duration \<le> (2000::real) - 1000"
    by (simp add: cache_duration_def)
  have f: "lower (user_input fdb_switch 1) \<noteq> ''y''"
    using lower_N by (simp add: fdb_switch_def)
  have m: "map_of ?C1 ?ip = Some \<lparr>data = ?out, timestamp = 1000\<rparr>"
    by simp
  have g: "get_fdb_info fdb_switch 0 ?ip ?C1 False 2000 ?S1 =
      (Inr ?out, ?C1,
       \<lparr>connections = [], next_session = 0, trace = [Exec 0 ''show fdb'', Input ?ip]\<rparr>)"
    using fdb_cache_ttl [of _ _ ?ip ?C1 _ _ ?S1 _ _ _ _ _ _
        "\<lparr>data = ?out, timestamp = 1000\<rparr>" 2000 fdb_switch 0] m e f
    by (simp add: emit_def)
  have h: "lower (user_input ?yes 1) = ''y''"
    using lower_Y by simp
  have x: "\<And>t. exec_command ?yes t 0 ''show fdb'' = Inr (Inr ?out, Inr [])"
    by (simp add: fdb_switch_def)
  have i: "get_fdb_info ?yes 0 ?ip ?C1 False 2000 ?S1 =
      fetch_fdb ?yes 0 ?ip ?C1 2000 (emit (Input ?ip) ?S1)"
    using fdb_cache_ttl [of _ _ ?ip ?C1 _ _ ?S1 _ _ _ _ _ _
        "\<lparr>data = ?out, timestamp = 1000\<rparr>" 2000 ?yes 0] m e h
    by simp
  have j: "fetch_fdb ?yes 0 ?ip ?C1 2000 (emit (Input ?ip) ?S1) =
      (Inr ?out, [(?ip, \<lparr>data = ?out, timestamp = 2000\<rparr>)],
       \<lparr>connections = [], next_session = 0,
        trace = [Exec 0 ''show fdb'', Input ?ip, Exec 0 ''show fdb'']\<rparr>)"
    using fdb_cache_ttl [of _ _ ?ip ?C1 _ _ "emit (Input ?ip) ?S1" _ _ _ _ _ _
        _ 2000 ?yes 0 ?out "Inr []"] x
    by (simp add: emit_def)
  from a b c d e f g h i j show ?thesis
    by simp
qed

text \<open>
  The claim as stated fails when the first of the two lookups did not fetch: the age is
  counted from the time of the last fetch, which a lookup answered from the cache does
  not renew. With an entry fetched at time 0, a lookup at time 1000 prompts, the
  operator declines, and the lookup one second later prompts again.
\<close>

theorem declined_refresh_prompts_again:
  "get_fdb_info fdb_switch 0 ''10.10.1.1''
     [(''10.10.1.1'', \<lparr>data = ''old table'', timestamp = 0\<rparr>)] False 1000 empty_state =
     (Inr ''old table'', [(''10.10.1.1'', \<lparr>data = ''old table'', timestamp = 0\<rparr>)],
      \<lparr>connections = [], next_session = 0, trace = [Input ''10.10.1.1'']\<rparr>)
   \<and> (1001::real) - 1000 < cache_duration
   \<and> get_fdb_info fdb_switch 0 ''10.10.1.1''
     [(''10.10.1.1'', \<lparr>data = ''old table'', timestamp = 0\<rparr>)] False 1001
     \<lparr>connections = [], next_session = 0, trace = [Input ''10.10.1.1'']\<rparr> =
     (Inr ''old table'', [(''10.10.1.1'', \<lparr>data = ''old table'', timestamp = 0\<rparr>)],
      \<lparr>connections = [], next_session = 0,
       trace = [Input ''10.10.1.1'', Input ''10.10.1.1'']\<rparr>)"
proof -
  have n: "\<And>t. lower (user_input fdb_switch t) \<noteq> ''y''"
    using lower_N by (simp add: fdb_switch_def)
  show ?thesis
    by (simp add: get_fdb_info_def n cache_duration_def emit_def empty_state_def)
qed

end
